theory Spec2Isabelle
  imports Complex_Main "HOL-Library.Sublist"
begin

section \<open>Python values used by the generation pipeline\<close>

text \<open>
  The exceptions the modelled code can raise. An exception ends the call; it is the
  \<open>Inl\<close> branch of a result.
\<close>

datatype py_error =
  AssertionError | AttributeError | KeyError | RuntimeError | IndexError | OverflowError

subsection \<open>Texts\<close>

text \<open>
  A Python \<open>str\<close> is a sequence of Unicode code points: a list of natural numbers.
  \<open>str\<close> writes an ASCII text as such a list.
\<close>

type_synonym pystr = "nat list"

definition str :: "string \<Rightarrow> pystr" where
  "str s = map of_char s"

subsection \<open>Slices\<close>

text \<open>
  Python's \<open>xs[start:stop]\<close>: a negative bound counts from the end, every bound is
  clamped to the list, and \<open>stop = None\<close> means the end of the list.
\<close>

definition slice_bound :: "nat \<Rightarrow> int \<Rightarrow> nat" where
  "slice_bound n i = (if i < 0 then nat (max 0 (int n + i)) else min n (nat i))"

definition py_slice :: "'a list \<Rightarrow> int \<Rightarrow> int option \<Rightarrow> 'a list" where
  "py_slice xs start stop =
     (let n = length xs;
          lo = slice_bound n start;
          hi = (case stop of None \<Rightarrow> n | Some j \<Rightarrow> slice_bound n j)
      in drop lo (take hi xs))"

subsection \<open>Dictionaries\<close>

text \<open>
  A Python \<open>dict\<close> of strings keeps its keys in insertion order: an association list
  with distinct keys. Assigning to a key that is present overwrites the value in place;
  a new key goes to the end.
\<close>

type_synonym py_dict = "(pystr \<times> pystr) list"

fun dict_setitem :: "py_dict \<Rightarrow> pystr \<Rightarrow> pystr \<Rightarrow> py_dict" where
  "dict_setitem [] k v = [(k, v)]"
| "dict_setitem ((k', v') # d) k v =
     (if k' = k then (k, v) # d else (k', v') # dict_setitem d k v)"

definition dict_getitem :: "py_dict \<Rightarrow> pystr \<Rightarrow> py_error + pystr" where
  "dict_getitem d k = (case map_of d k of None \<Rightarrow> Inl KeyError | Some v \<Rightarrow> Inr v)"

definition dict_pop :: "py_dict \<Rightarrow> pystr \<Rightarrow> py_dict" where
  "dict_pop d k = filter (\<lambda>kv. fst kv \<noteq> k) d"

definition dict_keys :: "py_dict \<Rightarrow> pystr list" where
  "dict_keys d = map fst d"

section \<open>Helpers of the repository that the generation code calls\<close>

text \<open>
  Modelled from the spec: \<open>find_index_of_subset\<close> lives in the package's \<open>utils\<close>
  module, which is not among the sources. The spec describes it as the starting index of
  the first occurrence of the encoded delimiter as a contiguous run of the output tokens,
  with a not-found sentinel when it is absent; an empty delimiter encoding, or one longer
  than what is left of the output, counts as not found. The sentinel is \<open>-1\<close>: it is
  the value \<open>generate\<close> compares the index with.
\<close>

fun find_from :: "int list \<Rightarrow> int list \<Rightarrow> int \<Rightarrow> int" where
  "find_from [] small idx = - 1"
| "find_from (x # xs) small idx =
     (if take (length small) (x # xs) = small then idx else find_from xs small (idx + 1))"

definition find_index_of_subset :: "int list \<Rightarrow> int list \<Rightarrow> int" where
  "find_index_of_subset large_list small_list =
     (if small_list = [] then - 1 else find_from large_list small_list 0)"

section \<open>Regular expressions and string operations\<close>

text \<open>
  \<open>generate\<close> uses two character classes of the regular-expression engine, which
  works on Unicode: the white space class \<open>\s\<close>, and the class \<open>[\W_]\<close> of the
  characters that are not letters or digits. The tables behind them belong to the
  interpreter and not to the repository, so they are parameters: \<open>is_space cc c\<close>
  says that the code point \<open>c\<close> is matched by \<open>\s\<close>, and \<open>is_alnum cc c\<close> that it is
  not matched by \<open>[\W_]\<close>. Every theorem holds for every pair of tables.

  \<open>nonalphanum_sub\<close> is \<open>re.compile(r"[\W_]+", re.UNICODE).sub("", s)\<close>: it deletes
  every character that is not a letter or a digit. \<open>lstrip_spaces\<close> is
  \<open>re.sub(r"^\s+", "", text)\<close>: it deletes the white space at the start.
  \<open>replace_first old new text\<close> is \<open>text.replace(old, new, 1)\<close>: it replaces the
  leftmost occurrence of \<open>old\<close>.
\<close>

record char_classes =
  is_space :: "nat \<Rightarrow> bool"
  is_alnum :: "nat \<Rightarrow> bool"

definition nonalphanum_sub :: "char_classes \<Rightarrow> pystr \<Rightarrow> pystr" where
  "nonalphanum_sub cc s = filter (is_alnum cc) s"

definition lstrip_spaces :: "char_classes \<Rightarrow> pystr \<Rightarrow> pystr" where
  "lstrip_spaces cc text = dropWhile (is_space cc) text"

fun replace_first :: "pystr \<Rightarrow> pystr \<Rightarrow> pystr \<Rightarrow> pystr" where
  "replace_first old new [] = (if old = [] then new else [])"
| "replace_first old new (c # cs) =
     (if take (length old) (c # cs) = old then new @ drop (length old) (c # cs)
      else c # replace_first old new cs)"

text \<open>
  The prompt in bold on a terminal: \<open>"\033[1m" + prompt + "\033[0m"\<close>. The escape
  character is the code point 27.
\<close>

definition bold :: "pystr \<Rightarrow> pystr" where
  "bold s = 27 # str ''[1m'' @ s @ 27 # str ''[0m''"

section \<open>The collaborators of \<open>generate\<close>\<close>

text \<open>
  The tokenizer and the language model are external. The tokenizer is a pair of
  functions (\<open>decode\<close> takes the \<open>skip_special_tokens\<close> flag first) and the id of its
  beginning-of-sequence token. The model's sampling call is an oracle: \<open>model k\<close> is
  the batch of token sequences that the \<open>k\<close>-th call of \<open>self.model.generate\<close> within
  one call of \<open>generate\<close> gives back. Every theorem below holds for every tokenizer and
  every oracle.
\<close>

record tokenizer =
  encode :: "pystr \<Rightarrow> int list"
  decode :: "bool \<Rightarrow> int list \<Rightarrow> pystr"
  bos_token_id :: int

text \<open>
  The fields of \<open>self.model.config\<close> that \<open>generate\<close> reads. \<open>max_length_of_model\<close>
  is the value of \<open>model_max_length(self.model.config)\<close> (a helper of \<open>utils\<close>); an
  attribute that may be missing is an \<open>option\<close>.
\<close>

record model_config =
  max_length_of_model :: int
  line_by_line :: "bool option"
  schema_tokens :: "pystr list option"
  schema_return :: "pystr list option"

text \<open>
  The arguments of \<open>generate\<close>. \<open>n_texts\<close> is the parameter \<open>n\<close>. The arguments that
  are only handed on to the model (temperature, do_sample, pad_token_id, use_cache) are
  part of the oracle.
\<close>

record gen_args =
  n_texts :: int
  prompt :: pystr
  prepend_bos :: "bool option"
  min_length :: "int option"
  max_length :: int
  return_as_list :: bool
  seed :: "int option"
  schema :: bool
  normalize_key :: bool
  lstrip :: bool
  nonempty_output :: bool
  skip_special_tokens :: bool

text \<open>
  What a produced text is: a string, or in schema mode a record of fields. What
  \<open>generate\<close> gives back: nothing (after printing), a list, or one element.
\<close>

datatype pyval = Str pystr | Dict py_dict

datatype retval = RetNone | RetList "pyval list" | RetOne pyval

text \<open>
  The effects of one call, in the order they happen: seeding and reseeding the global
  random state (\<open>set_seed\<close>, \<open>reset_seed\<close> of \<open>utils\<close>), a sampling pass of the model
  with its \<open>input_ids\<close>, \<open>min_length\<close>, \<open>max_length\<close> and \<open>num_return_sequences\<close>, and
  a \<open>print\<close> of a list of texts.
\<close>

datatype event =
    SetSeed int
  | ResetSeed
  | ModelGenerate "int list option" "int option" int int
  | Print "pyval list"

text \<open>Python's truth value of an optional integer: \<open>None\<close> and \<open>0\<close> are false.\<close>

definition truthy :: "int option \<Rightarrow> bool" where
  "truthy v = (case v of None \<Rightarrow> False | Some i \<Rightarrow> i \<noteq> 0)"

section \<open>Schema mode: from a token sequence to a record\<close>

text \<open>
  The pairs (delimiter, index of its encoding in the output), sorted by index.
  \<open>list.sort\<close> is stable, as \<open>sort_key\<close> is.
\<close>

definition schema_token_indices ::
  "tokenizer \<Rightarrow> pystr list \<Rightarrow> int list \<Rightarrow> (pystr \<times> int) list" where
  "schema_token_indices tk toks output =
     (let schema_tokens_enc = map (encode tk) toks
      in sort_key snd
           (map (\<lambda>(tok, token_enc). (tok, find_index_of_subset output token_enc))
              (zip toks schema_tokens_enc)))"

definition field_key :: "char_classes \<Rightarrow> bool \<Rightarrow> pystr \<Rightarrow> pystr" where
  "field_key cc nk tok = (if nk then nonalphanum_sub cc tok else tok)"

text \<open>
  The loop over the sorted pairs. The pair after the current one is the head of the rest
  of the list; \<open>end_index\<close> is \<open>None\<close> for the last pair.
\<close>

fun fill_fields ::
  "char_classes \<Rightarrow> tokenizer \<Rightarrow> bool \<Rightarrow> int list \<Rightarrow> (pystr \<times> int) list \<Rightarrow> py_dict \<Rightarrow> py_dict" where
  "fill_fields cc tk nk output [] gen_text_dict = gen_text_dict"
| "fill_fields cc tk nk output ((tok, start_index) # rest) gen_text_dict =
     (let key = field_key cc nk tok
      in if start_index = - 1
         then fill_fields cc tk nk output rest (dict_setitem gen_text_dict key [])
         else
           (let end_index = (case rest of [] \<Rightarrow> None | nxt # _ \<Rightarrow> Some (snd nxt - 1))
            in fill_fields cc tk nk output rest
                 (dict_setitem gen_text_dict key
                    (decode tk True (py_slice output start_index end_index)))))"

text \<open>
  Removing the fields that are not in \<open>schema_return\<close>. \<open>keys\<close> is a live view of the
  dictionary. With one name in \<open>schema_return\<close> the variable \<open>gen_text_dict\<close> is rebound
  to the string of that field (a \<open>KeyError\<close> when the field is missing), and the loop
  that follows calls \<open>pop\<close> on that string for every key outside \<open>schema_return\<close>: a
  string has no \<open>pop\<close>, so this is an \<open>AttributeError\<close>. Otherwise the loop pops from
  the dictionary it iterates over; the iterator compares the size of the dictionary
  with the size it started from each time it is asked for the next key, also after the
  last one, and raises \<open>RuntimeError\<close> when they differ.
\<close>

fun pop_from_str :: "pystr list \<Rightarrow> pystr list \<Rightarrow> pystr \<Rightarrow> py_error + pyval" where
  "pop_from_str sr [] s = Inr (Str s)"
| "pop_from_str sr (key # keys) s =
     (if key \<notin> set sr then Inl AttributeError else pop_from_str sr keys s)"

fun pop_from_dict :: "pystr list \<Rightarrow> nat \<Rightarrow> pystr list \<Rightarrow> py_dict \<Rightarrow> py_error + pyval" where
  "pop_from_dict sr used [] d = (if length d \<noteq> used then Inl RuntimeError else Inr (Dict d))"
| "pop_from_dict sr used (key # keys) d =
     (if length d \<noteq> used then Inl RuntimeError
      else if key \<notin> set sr then pop_from_dict sr used keys (dict_pop d key)
      else pop_from_dict sr used keys d)"

definition remove_fields :: "pystr list option \<Rightarrow> py_dict \<Rightarrow> py_error + pyval" where
  "remove_fields sr gen_text_dict =
     (case sr of
        None \<Rightarrow> Inr (Dict gen_text_dict)
      | Some r \<Rightarrow>
          if r = [] then Inr (Dict gen_text_dict)
          else
            (let keys = dict_keys gen_text_dict
             in if length r = 1
                then (case dict_getitem gen_text_dict (r ! 0) of
                        Inl e \<Rightarrow> Inl e
                      | Inr s \<Rightarrow> pop_from_str r keys s)
                else pop_from_dict r (length gen_text_dict) keys gen_text_dict))"

definition gen_text_dict_of ::
  "char_classes \<Rightarrow> tokenizer \<Rightarrow> pystr list \<Rightarrow> bool \<Rightarrow> int list \<Rightarrow> py_dict" where
  "gen_text_dict_of cc tk toks nk output =
     fill_fields cc tk nk output (schema_token_indices tk toks output) []"

definition schema_record ::
  "char_classes \<Rightarrow> tokenizer \<Rightarrow> pystr list \<Rightarrow> pystr list option \<Rightarrow> bool \<Rightarrow> int list \<Rightarrow> py_error + pyval" where
  "schema_record cc tk toks sr nk output = remove_fields sr (gen_text_dict_of cc tk toks nk output)"

text \<open>The loop over the outputs: the first exception ends it.\<close>

fun schema_records ::
  "char_classes \<Rightarrow> tokenizer \<Rightarrow> pystr list \<Rightarrow> pystr list option \<Rightarrow> bool \<Rightarrow> int list list
     \<Rightarrow> py_error + pyval list" where
  "schema_records cc tk toks sr nk [] = Inr []"
| "schema_records cc tk toks sr nk (output # outputs) =
     (case schema_record cc tk toks sr nk output of
        Inl e \<Rightarrow> Inl e
      | Inr gen_text \<Rightarrow>
          (case schema_records cc tk toks sr nk outputs of
             Inl e \<Rightarrow> Inl e
           | Inr gen_texts \<Rightarrow> Inr (gen_text # gen_texts)))"

section \<open>\<open>generate\<close>\<close>

text \<open>
  Two steps that both branches of the loop body share: \<open>reset_seed\<close> is
  \<open>if seed: reset_seed()\<close>, and \<open>bold_prompt\<close> puts the first occurrence of the prompt
  in every text in bold when there is a prompt.
\<close>

definition reset_seed :: "gen_args \<Rightarrow> event list \<Rightarrow> event list" where
  "reset_seed a w = (if truthy (seed a) then w @ [ResetSeed] else w)"

definition bold_prompt :: "gen_args \<Rightarrow> pystr list \<Rightarrow> pystr list" where
  "bold_prompt a gen_texts =
     (if prompt a \<noteq> [] then map (replace_first (prompt a) (bold (prompt a))) gen_texts
      else gen_texts)"

text \<open>
  The end of the schema branch of the loop body: the configured delimiters are read
  (\<open>getattr\<close> without a default: an \<open>AttributeError\<close> when there are none), every
  output becomes a record, the seed is reset, and the records are printed or returned.
\<close>

definition schema_branch ::
  "char_classes \<Rightarrow> tokenizer \<Rightarrow> model_config \<Rightarrow> gen_args \<Rightarrow> int list list \<Rightarrow> event list
     \<Rightarrow> (py_error + retval) \<times> event list" where
  "schema_branch cc tk cfg a outputs w =
     (case schema_tokens cfg of
        None \<Rightarrow> (Inl AttributeError, w)
      | Some toks \<Rightarrow>
          (case schema_records cc tk toks (schema_return cfg) (normalize_key a) outputs of
             Inl e \<Rightarrow> (Inl e, w)
           | Inr gen_texts \<Rightarrow>
               (let w' = reset_seed a w
                in if \<not> return_as_list a then (Inr RetNone, w' @ [Print gen_texts])
                   else if n_texts a > 1 then (Inr (RetList gen_texts), w')
                   else (case gen_texts of
                           [] \<Rightarrow> (Inl IndexError, w')
                         | g # _ \<Rightarrow> (Inr (RetOne g), w')))))"

text \<open>
  The typical branch: decoding, stripping, and the filter of \<open>nonempty_output\<close>, which
  keeps a text when it is longer than \<open>min_length\<close> (longer than 0 when \<open>min_length\<close>
  is \<open>None\<close> or 0).
\<close>

definition cleanup ::
  "char_classes \<Rightarrow> tokenizer \<Rightarrow> gen_args \<Rightarrow> int list list \<Rightarrow> pystr list" where
  "cleanup cc tk a outputs =
     (let gen_texts = map (decode tk (skip_special_tokens a)) outputs;
          gen_texts = (if lstrip a then map (lstrip_spaces cc) gen_texts else gen_texts)
      in if nonempty_output a
         then (if truthy (min_length a)
               then filter (\<lambda>x. int (length x) > the (min_length a)) gen_texts
               else filter (\<lambda>x. length x > 0) gen_texts)
         else gen_texts)"

text \<open>What follows a batch that is not empty: the seed is reset, then print or return.\<close>

definition typical_finish ::
  "gen_args \<Rightarrow> pystr list \<Rightarrow> event list \<Rightarrow> (py_error + retval) \<times> event list" where
  "typical_finish a gen_texts w =
     (let w' = reset_seed a w
      in if \<not> return_as_list a
         then
           (let texts = bold_prompt a gen_texts
            in if n_texts a > 1 then (Inr RetNone, w' @ [Print (map Str texts)])
               else (case texts of
                       [] \<Rightarrow> (Inl IndexError, w')
                     | t # _ \<Rightarrow> (Inr RetNone, w' @ [Print [Str t]])))
         else (Inr (RetList (map Str gen_texts)), w'))"

text \<open>
  The \<open>while True\<close> loop. It may run forever, so it is a partial function: \<open>None\<close>
  means that the call never comes back. \<open>k\<close> counts the sampling passes made so far.
\<close>

partial_function (option) sample_loop ::
  "char_classes \<Rightarrow> tokenizer \<Rightarrow> model_config \<Rightarrow> gen_args \<Rightarrow> int list option \<Rightarrow> int
     \<Rightarrow> (nat \<Rightarrow> int list list) \<Rightarrow> nat \<Rightarrow> event list
     \<Rightarrow> ((py_error + retval) \<times> event list) option" where
  "sample_loop cc tk cfg a input_ids max_len model k w =
     (let outputs = model k;
          w1 = w @ [ModelGenerate input_ids (min_length a) max_len (n_texts a)]
      in if schema a then Some (schema_branch cc tk cfg a outputs w1)
         else
           (let gen_texts = cleanup cc tk a outputs
            in if length gen_texts = 0
               then sample_loop cc tk cfg a input_ids max_len model (k + 1) w1
               else Some (typical_finish a gen_texts w1)))"

text \<open>
  The preparation before the loop. \<open>prepare_input_ids\<close> gives the \<open>input_ids\<close> of the
  sampling call: the prompt's tokens when there is a prompt, with the beginning-of-sequence
  token in front when \<open>prepend_bos\<close> (by default the \<open>line_by_line\<close> attribute of the
  configuration) is true. \<open>apply_seed\<close> is \<open>if seed: set_seed(seed)\<close>.
\<close>

definition prepare_input_ids :: "tokenizer \<Rightarrow> model_config \<Rightarrow> gen_args \<Rightarrow> int list option" where
  "prepare_input_ids tk cfg a =
     (let prompt_tensors = encode tk (prompt a);
          input_ids = (if prompt a \<noteq> [] then Some prompt_tensors else None);
          pb = (case prepend_bos a of
                  None \<Rightarrow> (case line_by_line cfg of None \<Rightarrow> False | Some b \<Rightarrow> b)
                | Some b \<Rightarrow> b)
      in if pb
         then (if prompt a \<noteq> [] then Some (bos_token_id tk # prompt_tensors)
               else Some [bos_token_id tk])
         else input_ids)"

definition apply_seed :: "gen_args \<Rightarrow> event list \<Rightarrow> event list" where
  "apply_seed a w = (if truthy (seed a) then w @ [SetSeed (the (seed a))] else w)"

text \<open>
  The whole call. The prompt is tokenised and checked against the context length of the
  model before anything else happens; then the input ids, the seed and the length limit
  are prepared and the loop is entered. \<open>w\<close> is the trace of effects so far.
\<close>

definition generate ::
  "char_classes \<Rightarrow> tokenizer \<Rightarrow> model_config \<Rightarrow> gen_args \<Rightarrow> (nat \<Rightarrow> int list list) \<Rightarrow> event list
     \<Rightarrow> ((py_error + retval) \<times> event list) option" where
  "generate cc tk cfg a model w =
     (let prompt_tensors = encode tk (prompt a);
          prompt_num_tokens = int (length prompt_tensors)
      in if prompt a \<noteq> [] \<and> \<not> prompt_num_tokens < max_length_of_model cfg
         then Some (Inl AssertionError, w)
         else
           (let input_ids = prepare_input_ids tk cfg a;
                w1 = apply_seed a w;
                gen_max_length = max_length_of_model cfg;
                max_len = min gen_max_length (max_length a)
            in sample_loop cc tk cfg a input_ids max_len model 0 w1))"

text \<open>The sampling event of a call: what every pass of its loop adds to the trace.\<close>

definition sampling_event :: "tokenizer \<Rightarrow> model_config \<Rightarrow> gen_args \<Rightarrow> event" where
  "sampling_event tk cfg a =
     ModelGenerate (prepare_input_ids tk cfg a) (min_length a)
       (min (max_length_of_model cfg) (max_length a)) (n_texts a)"

section \<open>Training: the resolved run configuration\<close>

text \<open>
  The part of \<open>train\<close> that turns its arguments and the machine it runs on into the
  keyword arguments of the trainer. \<open>cuda_available\<close> is \<open>torch.cuda.is_available()\<close>
  and \<open>on_windows\<close> is \<open>platform.system() == "Windows"\<close>. A key of \<open>train_params\<close>
  that is only set on some paths is an \<open>option\<close>; the keys that are copied from the
  arguments without a decision (gradient_clip_val, logger, callbacks and the like) are
  left out.
\<close>

record train_args =
  fp16 :: bool
  fp16_opt_level :: string
  n_gpu :: int
  tpu_cores :: int
  gradient_accumulation_steps :: int
  num_steps :: int
  benchmark :: bool
  use_deepspeed :: bool

record train_params =
  accumulate_grad_batches :: int
  gpus :: int
  max_steps :: int
  plugins :: bool
  precision :: "nat option"
  amp_level :: "string option"
  amp_backend :: "string option"
  tp_tpu_cores :: "int option"
  tp_benchmark :: "bool option"
  distributed_backend :: "string option"

definition resolve_train_params :: "bool \<Rightarrow> bool \<Rightarrow> train_args \<Rightarrow> train_params" where
  "resolve_train_params cuda_available on_windows a =
     (let is_gpu_used = (cuda_available \<and> n_gpu a \<noteq> 0);
          n_gpu1 = (if \<not> is_gpu_used then 0 else n_gpu a);
          n_gpu2 = (if on_windows \<and> is_gpu_used \<and> n_gpu1 \<noteq> 1 then 1 else n_gpu1);
          deepspeed_plugin = (is_gpu_used \<and> use_deepspeed a);
          fp16' = (if is_gpu_used \<and> use_deepspeed a \<and> \<not> fp16 a then True else fp16 a);
          p0 = \<lparr> accumulate_grad_batches = gradient_accumulation_steps a,
                 gpus = n_gpu2,
                 max_steps = num_steps a,
                 plugins = deepspeed_plugin,
                 precision = None,
                 amp_level = None,
                 amp_backend = None,
                 tp_tpu_cores = None,
                 tp_benchmark = None,
                 distributed_backend = None \<rparr>;
          p1 = (if fp16'
                then p0\<lparr> precision := Some 32,
                         amp_level := Some (fp16_opt_level a),
                         amp_backend := Some ''native'' \<rparr>
                else p0);
          p2 = (if tpu_cores a > 0 then p1\<lparr> tp_tpu_cores := Some (tpu_cores a), gpus := 0 \<rparr> else p1);
          n_gpu3 = (if tpu_cores a > 0 then 0 else n_gpu2);
          p3 = (if is_gpu_used \<and> benchmark a then p2\<lparr> tp_benchmark := Some True \<rparr> else p2);
          p4 = (if n_gpu3 > 1 then p3\<lparr> distributed_backend := Some ''ddp'' \<rparr> else p3)
      in p4\<lparr> amp_level := Some ''O1'', amp_backend := Some ''native'' \<rparr>)"

section \<open>Cross-training: the schedule\<close>

text \<open>
  \<open>cross_train\<close> takes a learning rate and a number of steps that are each one number
  or a list with one entry per dataset. A single number is halved from one dataset to the
  next: the learning rate of dataset \<open>x\<close> is \<open>learning_rate / (2 ** x)\<close>, a division of
  a float by an integer, and its number of steps is \<open>int(num_steps / (2 ** x))\<close>, a true
  division of two integers followed by \<open>int\<close>, which cuts the fraction off towards
  zero.

  A float is represented by the rational number it stands for. The floating-point
  arithmetic belongs to the interpreter and the machine, so it is a parameter:
  \<open>float_of_int\<close> is the conversion of an integer to a float, which raises
  \<open>OverflowError\<close> (here \<open>None\<close>) when the integer is too large; \<open>float_div\<close> is the
  division of two floats; \<open>int_div\<close> is the true division of two integers, which raises
  \<open>OverflowError\<close> when the quotient is too large. Each of them rounds.
\<close>

record float_arith =
  float_of_int :: "int \<Rightarrow> rat option"
  float_div :: "rat \<Rightarrow> rat \<Rightarrow> rat"
  int_div :: "int \<Rightarrow> int \<Rightarrow> rat option"

datatype 'a one_or_list = Scalar 'a | PerDataset "'a list"

definition py_int :: "rat \<Rightarrow> int" where
  "py_int q = (if 0 \<le> q then \<lfloor>q\<rfloor> else \<lceil>q\<rceil>)"

text \<open>A list comprehension whose element expression can raise: the first exception ends it.\<close>

fun comprehension :: "('a \<Rightarrow> py_error + 'b) \<Rightarrow> 'a list \<Rightarrow> py_error + 'b list" where
  "comprehension f [] = Inr []"
| "comprehension f (x # xs) =
     (case f x of
        Inl e \<Rightarrow> Inl e
      | Inr y \<Rightarrow> (case comprehension f xs of Inl e \<Rightarrow> Inl e | Inr ys \<Rightarrow> Inr (y # ys)))"

definition halved_rate :: "float_arith \<Rightarrow> rat \<Rightarrow> nat \<Rightarrow> py_error + rat" where
  "halved_rate fa learning_rate x =
     (case float_of_int fa (2 ^ x) of
        None \<Rightarrow> Inl OverflowError
      | Some g \<Rightarrow> Inr (float_div fa learning_rate g))"

definition halved_steps :: "float_arith \<Rightarrow> int \<Rightarrow> nat \<Rightarrow> py_error + int" where
  "halved_steps fa num_steps_arg x =
     (case int_div fa num_steps_arg (2 ^ x) of
        None \<Rightarrow> Inl OverflowError
      | Some q \<Rightarrow> Inr (py_int q))"

text \<open>
  The schedule: the learning rate and the number of steps of each run of \<open>train\<close>, in the
  order of the datasets, or the exception that ends \<open>cross_train\<close> before the first run.
\<close>

definition cross_train_schedule ::
  "float_arith \<Rightarrow> nat \<Rightarrow> rat one_or_list \<Rightarrow> int one_or_list \<Rightarrow> py_error + (rat \<times> int) list" where
  "cross_train_schedule fa n_datasets learning_rate num_steps_arg =
     (case (case learning_rate of
              PerDataset l \<Rightarrow> Inr l
            | Scalar r \<Rightarrow> comprehension (halved_rate fa r) [0..<n_datasets]) of
        Inl e \<Rightarrow> Inl e
      | Inr learning_rates \<Rightarrow>
          (case (case num_steps_arg of
                   PerDataset l \<Rightarrow> Inr l
                 | Scalar s \<Rightarrow> comprehension (halved_steps fa s) [0..<n_datasets]) of
             Inl e \<Rightarrow> Inl e
           | Inr steps \<Rightarrow>
               if n_datasets = length learning_rates \<and> length learning_rates = length steps
               then Inr (zip learning_rates steps)
               else Inl AssertionError))"

text \<open>
  The floats are the double-precision numbers: a mantissa below \<open>2 ^ 53\<close> times a power
  of two between \<open>2 ^ -1074\<close> and \<open>2 ^ 971\<close>. The arithmetic of the interpreter is
  correctly rounded; what the theorems use of it is that an operation whose exact result
  is a double gives that result.
\<close>

definition is_double :: "rat \<Rightarrow> bool" where
  "is_double q =
     (\<exists>m u d. \<bar>m\<bar> < 2 ^ 53 \<and> u \<le> 971 \<and> d \<le> 1074 \<and> q = of_int m * 2 ^ u / 2 ^ d)"

definition correctly_rounded :: "float_arith \<Rightarrow> bool" where
  "correctly_rounded fa =
     ((\<forall>i. is_double (of_int i) \<longrightarrow> float_of_int fa i = Some (of_int i))
      \<and> (\<forall>f g. is_double f \<and> is_double g \<and> g \<noteq> 0 \<and> is_double (f / g)
             \<longrightarrow> float_div fa f g = f / g)
      \<and> (\<forall>i j. j \<noteq> 0 \<and> is_double (of_int i / of_int j)
             \<longrightarrow> int_div fa i j = Some (of_int i / of_int j)))"

section \<open>Collaborators, arguments and a configuration for the examples\<close>

text \<open>A character-level tokenizer: one token per character, the character's code point.\<close>

definition char_tokenizer :: tokenizer where
  "char_tokenizer =
     \<lparr> encode = map int,
       decode = (\<lambda>skip ts. map nat ts),
       bos_token_id = 0 \<rparr>"

text \<open>
  The two character classes on the code points below 256, as the regular-expression
  engine has them there; the examples use no other code points.
\<close>

definition latin1_classes :: char_classes where
  "latin1_classes =
     \<lparr> is_space = (\<lambda>c. (9 \<le> c \<and> c \<le> 13) \<or> (28 \<le> c \<and> c \<le> 32) \<or> c = 133 \<or> c = 160),
       is_alnum = (\<lambda>c. (48 \<le> c \<and> c \<le> 57) \<or> (65 \<le> c \<and> c \<le> 90) \<or> (97 \<le> c \<and> c \<le> 122)
                        \<or> c = 170 \<or> c = 178 \<or> c = 179 \<or> c = 181 \<or> c = 185 \<or> c = 186
                        \<or> (188 \<le> c \<and> c \<le> 190) \<or> (192 \<le> c \<and> c \<le> 214)
                        \<or> (216 \<le> c \<and> c \<le> 246) \<or> (248 \<le> c \<and> c \<le> 255)) \<rparr>"

text \<open>
  An arithmetic that never rounds, with the overflow of the conversion from integers.
  On the numbers of the examples the arithmetic of the interpreter does not round
  either.
\<close>

definition exact_arith :: float_arith where
  "exact_arith =
     \<lparr> float_of_int = (\<lambda>i. if \<bar>i\<bar> < 2 ^ 1024 then Some (of_int i) else None),
       float_div = (\<lambda>f g. f / g),
       int_div = (\<lambda>i j. Some (of_int i / of_int j)) \<rparr>"

text \<open>The defaults of the signatures of \<open>generate\<close> and \<open>train\<close>.\<close>

definition default_args :: gen_args where
  "default_args =
     \<lparr> n_texts = 1, prompt = [], prepend_bos = None, min_length = None, max_length = 256,
       return_as_list = False, seed = None, schema = False, normalize_key = True,
       lstrip = True, nonempty_output = True, skip_special_tokens = True \<rparr>"

definition default_train_args :: train_args where
  "default_train_args =
     \<lparr> fp16 = False, fp16_opt_level = ''O1'', n_gpu = - 1, tpu_cores = 0,
       gradient_accumulation_steps = 1, num_steps = 5000, benchmark = True,
       use_deepspeed = False \<rparr>"

definition qa_config :: model_config where
  "qa_config =
     \<lparr> max_length_of_model = 1024, line_by_line = None,
       schema_tokens = Some [str ''Q:'', str ''A:''], schema_return = None \<rparr>"

text \<open>The number of sampling passes in a trace.\<close>

fun is_sampling :: "event \<Rightarrow> bool" where
  "is_sampling (ModelGenerate _ _ _ _) = True"
| "is_sampling _ = False"

definition sampling_passes :: "event list \<Rightarrow> nat" where
  "sampling_passes w = length (filter is_sampling w)"

section \<open>Facts about the index search and the sorted pairs\<close>

lemma find_from_ge: "find_from xs small idx = - 1 \<or> idx \<le> find_from xs small idx"
proof (induction xs arbitrary: idx)
  case Nil
  show ?case by simp
next
  case (Cons x xs)
  from Cons.IH [of "idx + 1"] show ?case by auto
qed

lemma find_index_of_subset_ge: "- 1 \<le> find_index_of_subset large small"
  using find_from_ge [of large small 0] by (auto simp: find_index_of_subset_def)

lemma schema_token_indices_sorted: "sorted (map snd (schema_token_indices tk toks output))"
  by (simp add: schema_token_indices_def)

lemma schema_token_indices_ge:
  assumes "p \<in> set (schema_token_indices tk toks output)"
  shows "- 1 \<le> snd p"
proof -
  from assms obtain t where "snd p = find_index_of_subset output (encode tk t)"
    by (auto simp: schema_token_indices_def set_zip)
  then show ?thesis by (simp add: find_index_of_subset_ge)
qed

section \<open>Where the pairs of delimiters that were not found go\<close>

text \<open>
  Claim C2 says that, once the pairs are sorted by position, every pair whose delimiter
  was not found comes after all the pairs whose delimiter was found. The sentinel for
  "not found" is \<open>-1\<close> and every index of a found delimiter is at least 0, so it is
  the other way round. Here \<open>Q:\<close> is found at 0 and \<open>Z:\<close> is not found, and the pair
  of \<open>Z:\<close> is first.
\<close>

theorem not_found_sorts_last_counterexample:
  "schema_token_indices char_tokenizer [str ''Q:'', str ''Z:''] (encode char_tokenizer (str ''Q:ab''))
     = [(str ''Z:'', - 1), (str ''Q:'', 0)]"
  by code_simp

text \<open>
  Claim C2, amended: the pairs are sorted ascending by position, and every pair whose
  delimiter was not found (position \<open>-1\<close>) comes before every pair whose delimiter was
  found.
\<close>

theorem not_found_sorts_first:
  assumes "idx = schema_token_indices tk toks output"
    and "i < length idx" and "j < length idx"
    and "snd (idx ! i) = - 1" and "snd (idx ! j) \<noteq> - 1"
  shows "sorted (map snd idx) \<and> i < j"
proof
  show srt: "sorted (map snd idx)"
    using assms(1) by (simp add: schema_token_indices_sorted)
  show "i < j"
  proof (rule ccontr)
    assume "\<not> i < j"
    then have "j \<le> i" by simp
    with srt assms(2) have "snd (idx ! j) \<le> snd (idx ! i)"
      by (simp add: sorted_iff_nth_mono)
    moreover have "- 1 \<le> snd (idx ! j)"
      using assms(1,3) schema_token_indices_ge [of "idx ! j" tk toks "output"] by simp
    ultimately show False using assms(4,5) by simp
  qed
qed

theorem not_found_sorts_first_witness:
  "sorted (map snd (schema_token_indices char_tokenizer [str ''A:'', str ''Z:'', str ''Q:'']
       (encode char_tokenizer (str ''Q:abA:cd''))))
   \<and> schema_token_indices char_tokenizer [str ''A:'', str ''Z:'', str ''Q:'']
       (encode char_tokenizer (str ''Q:abA:cd'')) = [(str ''Z:'', - 1), (str ''Q:'', 0), (str ''A:'', 4)]
   \<and> (0 :: nat) < 2"
proof -
  have e: "schema_token_indices char_tokenizer [str ''A:'', str ''Z:'', str ''Q:'']
       (encode char_tokenizer (str ''Q:abA:cd'')) = [(str ''Z:'', - 1), (str ''Q:'', 0), (str ''A:'', 4)]"
    by code_simp
  have "sorted (map snd (schema_token_indices char_tokenizer [str ''A:'', str ''Z:'', str ''Q:'']
       (encode char_tokenizer (str ''Q:abA:cd'')))) \<and> (0 :: nat) < 2"
    by (rule not_found_sorts_first [OF refl]) (simp_all add: e)
  with e show ?thesis by simp
qed

section \<open>A prompt that does not fit the context\<close>

text \<open>
  Claim C5: for every non-empty prompt whose tokenised length is greater than or equal to
  the maximum context length of the model, \<open>generate\<close> aborts with an error before any
  sampling, and the failure is not retried. The call ends with the assertion error and
  the trace of effects is the one it started with: no seed was set, the model was not
  sampled, and the loop was not entered.
\<close>

theorem prompt_too_long_aborts:
  assumes "prompt a \<noteq> []"
    and "max_length_of_model cfg \<le> int (length (encode tk (prompt a)))"
  shows "generate cc tk cfg a model w = Some (Inl AssertionError, w)"
  using assms by (simp add: generate_def Let_def)

theorem prompt_too_long_aborts_witness:
  "prompt (default_args\<lparr>prompt := (str ''abcd'')\<rparr>) \<noteq> []
   \<and> max_length_of_model (qa_config\<lparr>max_length_of_model := 4\<rparr>)
       \<le> int (length (encode char_tokenizer (prompt (default_args\<lparr>prompt := (str ''abcd'')\<rparr>))))
   \<and> generate latin1_classes char_tokenizer (qa_config\<lparr>max_length_of_model := 4\<rparr>)
       (default_args\<lparr>prompt := (str ''abcd'')\<rparr>) (\<lambda>k. [[81, 58]]) []
       = Some (Inl AssertionError, [])"
proof -
  have p: "prompt (default_args\<lparr>prompt := (str ''abcd'')\<rparr>) \<noteq> []"
    by (simp add: default_args_def str_def)
  have l: "max_length_of_model (qa_config\<lparr>max_length_of_model := 4\<rparr>)
       \<le> int (length (encode char_tokenizer (prompt (default_args\<lparr>prompt := (str ''abcd'')\<rparr>))))"
    by (simp add: default_args_def qa_config_def char_tokenizer_def str_def)
  from p l prompt_too_long_aborts [OF p l, of latin1_classes "\<lambda>k. [[81, 58]]" "[]"] show ?thesis
    by simp
qed

section \<open>Precision under DeepSpeed\<close>

text \<open>
  Claim C8: with the DeepSpeed plugin requested and a GPU in use, 16-bit precision is in
  the resolved configuration even when fp16 was not asked for. The code sets the flag
  \<open>fp16\<close>, and then writes 32 under the key \<open>precision\<close>: with a GPU, DeepSpeed and
  \<open>fp16 = False\<close> the plugin is on and the precision is 32.
\<close>

theorem deepspeed_precision_is_32:
  "plugins (resolve_train_params True False (default_train_args\<lparr>use_deepspeed := True\<rparr>))
   \<and> precision (resolve_train_params True False (default_train_args\<lparr>use_deepspeed := True\<rparr>))
       = Some 32"
  by (simp add: resolve_train_params_def default_train_args_def)

text \<open>No arguments give a precision of 16.\<close>

lemma precision_never_16: "precision (resolve_train_params c wn a) \<noteq> Some 16"
  by (simp add: resolve_train_params_def Let_def)

section \<open>The sampling loop\<close>

lemma sampling_passes_append [simp]:
  "sampling_passes (u @ v) = sampling_passes u + sampling_passes v"
  by (simp add: sampling_passes_def)

lemma sampling_passes_simps [simp]:
  "sampling_passes [] = 0"
  "sampling_passes (ModelGenerate i m l n # u) = Suc (sampling_passes u)"
  "sampling_passes (SetSeed s # u) = sampling_passes u"
  "sampling_passes (ResetSeed # u) = sampling_passes u"
  "sampling_passes (Print ts # u) = sampling_passes u"
  by (simp_all add: sampling_passes_def)

lemma sampling_passes_replicate [simp]:
  "sampling_passes (replicate n (ModelGenerate i m l c)) = n"
  by (induction n) simp_all

lemma sampling_passes_apply_seed [simp]:
  "sampling_passes (apply_seed a w) = sampling_passes w"
  by (simp add: apply_seed_def)


text \<open>One turn of the loop, in each of its three outcomes.\<close>

lemma loop_schema:
  "schema a \<Longrightarrow> sample_loop cc tk cfg a ids ml model k w =
     Some (schema_branch cc tk cfg a (model k) (w @ [ModelGenerate ids (min_length a) ml (n_texts a)]))"
  by (subst sample_loop.simps) simp

lemma loop_stop:
  "\<not> schema a \<Longrightarrow> cleanup cc tk a (model k) \<noteq> [] \<Longrightarrow>
   sample_loop cc tk cfg a ids ml model k w =
     Some (typical_finish a (cleanup cc tk a (model k))
             (w @ [ModelGenerate ids (min_length a) ml (n_texts a)]))"
  by (subst sample_loop.simps) (simp add: Let_def)

lemma loop_retry:
  "\<not> schema a \<Longrightarrow> cleanup cc tk a (model k) = [] \<Longrightarrow>
   sample_loop cc tk cfg a ids ml model k w =
     sample_loop cc tk cfg a ids ml model (k + 1)
       (w @ [ModelGenerate ids (min_length a) ml (n_texts a)])"
  by (subst sample_loop.simps) (simp add: Let_def)

text \<open>A run of empty batches is a run of retries.\<close>

lemma loop_skip:
  "\<not> schema a \<Longrightarrow> (\<forall>j<n. cleanup cc tk a (model (k + j)) = []) \<Longrightarrow>
   sample_loop cc tk cfg a ids ml model k w =
     sample_loop cc tk cfg a ids ml model (k + n)
       (w @ replicate n (ModelGenerate ids (min_length a) ml (n_texts a)))"
proof (induction n arbitrary: k w)
  case 0
  show ?case by simp
next
  case (Suc n)
  from Suc.prems(2) have c0: "cleanup cc tk a (model k) = []"
    by (metis add.right_neutral zero_less_Suc)
  from Suc.prems(2) have rest: "\<forall>j<n. cleanup cc tk a (model (k + 1 + j)) = []"
    by (metis Suc_less_eq add.assoc plus_1_eq_Suc)
  have "sample_loop cc tk cfg a ids ml model k w =
     sample_loop cc tk cfg a ids ml model (k + 1)
       (w @ [ModelGenerate ids (min_length a) ml (n_texts a)])"
    using Suc.prems(1) c0 by (rule loop_retry)
  also have "\<dots> = sample_loop cc tk cfg a ids ml model (k + 1 + n)
       ((w @ [ModelGenerate ids (min_length a) ml (n_texts a)])
          @ replicate n (ModelGenerate ids (min_length a) ml (n_texts a)))"
    using Suc.prems(1) rest by (rule Suc.IH)
  finally show ?case by (simp add: replicate_app_Cons_same)
qed

lemma loop_first_nonempty:
  assumes ns: "\<not> schema a"
    and empty: "\<forall>j<k. cleanup cc tk a (model j) = []"
    and ne: "cleanup cc tk a (model k) \<noteq> []"
  shows "sample_loop cc tk cfg a ids ml model 0 w0 =
           Some (typical_finish a (cleanup cc tk a (model k))
                   (w0 @ replicate (k + 1) (ModelGenerate ids (min_length a) ml (n_texts a))))"
proof -
  have "sample_loop cc tk cfg a ids ml model 0 w0 =
          sample_loop cc tk cfg a ids ml model (0 + k)
            (w0 @ replicate k (ModelGenerate ids (min_length a) ml (n_texts a)))"
    using ns empty by (intro loop_skip) simp_all
  also have "\<dots> = Some (typical_finish a (cleanup cc tk a (model k))
       ((w0 @ replicate k (ModelGenerate ids (min_length a) ml (n_texts a)))
          @ [ModelGenerate ids (min_length a) ml (n_texts a)]))"
    using ns ne loop_stop [of a cc tk model k cfg ids ml] by simp
  finally show ?thesis by (simp add: replicate_append_same)
qed

text \<open>The loop comes back only if some batch is not empty after the cleanup.\<close>

lemma loop_returns_only_if:
  assumes "sample_loop cc tk cfg a ids ml model k w = Some y"
  shows "\<not> schema a \<longrightarrow> (\<exists>j. cleanup cc tk a (model j) \<noteq> [])"
proof (rule sample_loop.raw_induct
    [where P = "\<lambda>cc tk cfg a ids ml model k w y.
                  \<not> schema a \<longrightarrow> (\<exists>j. cleanup cc tk a (model j) \<noteq> [])",
     OF _ assms])
  fix sl :: "char_classes \<Rightarrow> tokenizer \<Rightarrow> model_config \<Rightarrow> gen_args \<Rightarrow> int list option \<Rightarrow> int
     \<Rightarrow> (nat \<Rightarrow> int list list) \<Rightarrow> nat \<Rightarrow> event list
     \<Rightarrow> ((py_error + retval) \<times> event list) option"
  fix cc tk cfg a ids ml model k w y
  assume IH: "\<And>cc tk cfg a ids ml model k w y.
      sl cc tk cfg a ids ml model k w = Some y \<Longrightarrow>
      \<not> schema a \<longrightarrow> (\<exists>j. cleanup cc tk a (model j) \<noteq> [])"
  assume body: "(let outputs = model k;
          w1 = w @ [ModelGenerate ids (min_length a) ml (n_texts a)]
      in if schema a then Some (schema_branch cc tk cfg a outputs w1)
         else let gen_texts = cleanup cc tk a outputs
              in if length gen_texts = 0
                 then sl cc tk cfg a ids ml model (k + 1) w1
                 else Some (typical_finish a gen_texts w1)) = Some y"
  show "\<not> schema a \<longrightarrow> (\<exists>j. cleanup cc tk a (model j) \<noteq> [])"
  proof
    assume ns: "\<not> schema a"
    show "\<exists>j. cleanup cc tk a (model j) \<noteq> []"
    proof (cases "cleanup cc tk a (model k) = []")
      case True
      with body ns have "sl cc tk cfg a ids ml model (k + 1)
          (w @ [ModelGenerate ids (min_length a) ml (n_texts a)]) = Some y"
        by (simp add: Let_def)
      from IH [OF this] ns show ?thesis by simp
    next
      case False
      then show ?thesis by blast
    qed
  qed
qed

lemma loop_diverges:
  "\<not> schema a \<Longrightarrow> (\<forall>j. cleanup cc tk a (model j) = []) \<Longrightarrow>
   sample_loop cc tk cfg a ids ml model k w = None"
  using loop_returns_only_if [of cc tk cfg a ids ml model k w]
  by (cases "sample_loop cc tk cfg a ids ml model k w") auto

text \<open>A call whose prompt passes the check is its loop.\<close>

lemma generate_loop:
  assumes "prompt a = [] \<or> int (length (encode tk (prompt a))) < max_length_of_model cfg"
  shows "generate cc tk cfg a model w =
     sample_loop cc tk cfg a (prepare_input_ids tk cfg a)
       (min (max_length_of_model cfg) (max_length a)) model 0 (apply_seed a w)"
  using assms by (auto simp: generate_def Let_def)

lemma generate_schema:
  assumes "schema a"
    and "prompt a = [] \<or> int (length (encode tk (prompt a))) < max_length_of_model cfg"
  shows "generate cc tk cfg a model w =
     Some (schema_branch cc tk cfg a (model 0) (apply_seed a w @ [sampling_event tk cfg a]))"
  using assms by (simp add: generate_loop loop_schema sampling_event_def)

lemma generate_typical:
  assumes "\<not> schema a"
    and "prompt a = [] \<or> int (length (encode tk (prompt a))) < max_length_of_model cfg"
    and "\<forall>j<k. cleanup cc tk a (model j) = []"
    and "cleanup cc tk a (model k) \<noteq> []"
  shows "generate cc tk cfg a model w =
     Some (typical_finish a (cleanup cc tk a (model k))
             (apply_seed a w @ replicate (k + 1) (sampling_event tk cfg a)))"
  using assms(2) loop_first_nonempty [OF assms(1,3,4)]
  by (simp add: generate_loop sampling_event_def)

lemma generate_never_returns:
  assumes "\<not> schema a"
    and "prompt a = [] \<or> int (length (encode tk (prompt a))) < max_length_of_model cfg"
    and "\<forall>k. cleanup cc tk a (model k) = []"
  shows "generate cc tk cfg a model w = None"
  using assms by (simp add: generate_loop loop_diverges)

lemma sampling_passes_event [simp]:
  "sampling_passes (replicate n (sampling_event tk cfg a)) = n"
  by (simp add: sampling_event_def)

lemma cleanup_filter:
  assumes "nonempty_output a"
  shows "cleanup cc tk a outputs =
     filter (\<lambda>x. (if truthy (min_length a) then the (min_length a) else 0) < int (length x))
       (map (\<lambda>ts. (if lstrip a then lstrip_spaces cc else id) (decode tk (skip_special_tokens a) ts))
          outputs)"
  using assms by (simp add: cleanup_def Let_def comp_def)

text \<open>The fields of the default arguments and of the small configuration.\<close>

lemma default_args_fields:
  "n_texts default_args = 1" "prompt default_args = []" "prepend_bos default_args = None"
  "min_length default_args = None" "max_length default_args = 256"
  "\<not> return_as_list default_args" "seed default_args = None" "\<not> schema default_args"
  "normalize_key default_args" "lstrip default_args" "nonempty_output default_args"
  "skip_special_tokens default_args"
  by (simp_all add: default_args_def)

lemma qa_config_fields:
  "max_length_of_model qa_config = 1024" "line_by_line qa_config = None"
  "schema_tokens qa_config = Some [str ''Q:'', str ''A:'']" "schema_return qa_config = None"
  by (simp_all add: qa_config_def)

section \<open>A seed of zero\<close>

text \<open>
  Claim C9: a call of \<open>generate\<close> that is given a seed applies it to the global random
  state before sampling and resets the random state before it returns. The guard is
  \<open>if seed:\<close>, and 0 is false in Python: with \<open>seed = 0\<close> the call samples without
  ever calling \<open>set_seed\<close>.
\<close>

theorem seed_zero_is_not_applied:
  "generate latin1_classes char_tokenizer qa_config (default_args\<lparr>return_as_list := True, seed := Some 0\<rparr>)
     (\<lambda>k. [encode char_tokenizer (str ''hi'')]) []
     = Some (Inr (RetList [Str (str ''hi'')]), [ModelGenerate None None 256 1])"
proof -
  let ?a = "default_args\<lparr>return_as_list := True, seed := Some 0\<rparr>"
  let ?m = "\<lambda>k::nat. [encode char_tokenizer (str ''hi'')]"
  have c: "cleanup latin1_classes char_tokenizer ?a (?m 0) = [str ''hi'']" by code_simp
  have ns: "\<not> schema ?a" by (simp add: default_args_fields)
  have ok: "prompt ?a = [] \<or> int (length (encode char_tokenizer (prompt ?a))) < max_length_of_model qa_config"
    by (simp add: default_args_fields)
  have "generate latin1_classes char_tokenizer qa_config ?a ?m []
        = Some (typical_finish ?a (cleanup latin1_classes char_tokenizer ?a (?m 0))
                  (apply_seed ?a [] @ replicate (0 + 1) (sampling_event char_tokenizer qa_config ?a)))"
    by (rule generate_typical [OF ns ok]) (simp_all add: c)
  also have "\<dots> = Some (Inr (RetList [Str (str ''hi'')]), [ModelGenerate None None 256 1])"
    by (subst c)
       (simp add: typical_finish_def reset_seed_def bold_prompt_def apply_seed_def sampling_event_def prepare_input_ids_def
          truthy_def default_args_fields qa_config_fields)
  finally show ?thesis .
qed

text \<open>
  With a seed that is not zero the order is as the claim has it: the seed is set before
  the first sampling pass, and it is reset after the last one, before the texts are
  returned or printed.
\<close>

lemma typical_finish_trace:
  assumes "texts \<noteq> []"
  shows "\<exists>rest. snd (typical_finish a texts w)
                  = reset_seed a w @ rest
           \<and> (return_as_list a \<longrightarrow> rest = [])
           \<and> (\<not> return_as_list a \<longrightarrow> (\<exists>ts. rest = [Print ts]))"
proof (cases "return_as_list a")
  case True
  then show ?thesis by (simp add: typical_finish_def reset_seed_def bold_prompt_def Let_def)
next
  case False
  from assms obtain x xs where t: "texts = x # xs" by (cases texts) auto
  show ?thesis
  proof (cases "n_texts a > 1")
    case True
    with False show ?thesis by (simp add: typical_finish_def reset_seed_def bold_prompt_def Let_def)
  next
    case n: False
    show ?thesis
    proof (cases "prompt a = []")
      case True
      with False n t show ?thesis by (simp add: typical_finish_def reset_seed_def bold_prompt_def Let_def)
    next
      case p: False
      with False n t show ?thesis by (simp add: typical_finish_def reset_seed_def bold_prompt_def Let_def)
    qed
  qed
qed

lemma nonzero_seed_is_set_and_reset:
  assumes sd: "seed a = Some s" and nz: "s \<noteq> 0" and ns: "\<not> schema a"
    and ok: "prompt a = [] \<or> int (length (encode tk (prompt a))) < max_length_of_model cfg"
    and ret: "generate cc tk cfg a model w = Some (r, w')"
  shows "\<exists>k rest. w' = w @ [SetSeed s] @ replicate (k + 1) (sampling_event tk cfg a)
                         @ [ResetSeed] @ rest
           \<and> (return_as_list a \<longrightarrow> rest = [])
           \<and> (\<not> return_as_list a \<longrightarrow> (\<exists>ts. rest = [Print ts]))"
proof -
  have t: "truthy (seed a)" using sd nz by (simp add: truthy_def)
  have as: "apply_seed a w = w @ [SetSeed s]" using t sd by (simp add: apply_seed_def)
  have ex: "\<exists>k. cleanup cc tk a (model k) \<noteq> []"
  proof (rule ccontr)
    assume "\<not> (\<exists>k. cleanup cc tk a (model k) \<noteq> [])"
    then have "\<forall>k. cleanup cc tk a (model k) = []" by simp
    with ns ok have "generate cc tk cfg a model w = None" by (rule generate_never_returns)
    with ret show False by simp
  qed
  define k where "k = (LEAST k. cleanup cc tk a (model k) \<noteq> [])"
  have ne: "cleanup cc tk a (model k) \<noteq> []"
    unfolding k_def using ex by (rule LeastI_ex)
  have em: "\<forall>j<k. cleanup cc tk a (model j) = []"
    unfolding k_def using not_less_Least by blast
  let ?w1 = "apply_seed a w @ replicate (k + 1) (sampling_event tk cfg a)"
  from generate_typical [OF ns ok em ne, of w] ret
  have "(r, w') = typical_finish a (cleanup cc tk a (model k)) ?w1"
    by simp
  then have w': "w' = snd (typical_finish a (cleanup cc tk a (model k)) ?w1)"
    by (simp add: prod_eq_iff)
  from typical_finish_trace [OF ne, of a ?w1] obtain rest where
    sn: "snd (typical_finish a (cleanup cc tk a (model k)) ?w1) = reset_seed a ?w1 @ rest"
    and r1: "return_as_list a \<longrightarrow> rest = []"
    and r2: "\<not> return_as_list a \<longrightarrow> (\<exists>ts. rest = [Print ts])"
    by blast
  from sn t have "snd (typical_finish a (cleanup cc tk a (model k)) ?w1) = (?w1 @ [ResetSeed]) @ rest"
    by (simp only: reset_seed_def if_True)
  with w' as
  have tr: "w' = w @ [SetSeed s] @ replicate (k + 1) (sampling_event tk cfg a) @ [ResetSeed] @ rest"
    by (simp only: append_assoc)
  show ?thesis
  proof (intro exI conjI)
    show "w' = w @ [SetSeed s] @ replicate (k + 1) (sampling_event tk cfg a) @ [ResetSeed] @ rest"
      by (rule tr)
    show "return_as_list a \<longrightarrow> rest = []" by (rule r1)
    show "\<not> return_as_list a \<longrightarrow> (\<exists>ts. rest = [Print ts])" by (rule r2)
  qed
qed

section \<open>Removing the fields outside \<open>schema_return\<close>\<close>

text \<open>
  Claim C4: with one name in \<open>schema_return\<close> the result for an output is the string of
  that field, with more than one name it is the record cut down to the listed fields, and
  the pruning raises nothing. As soon as there is a field to remove, the pruning raises:
  with the fields \<open>Q\<close> and \<open>A\<close> and \<open>schema_return = ["A"]\<close> the loop calls \<open>pop\<close> on
  the string and the call ends with an \<open>AttributeError\<close>; with the fields \<open>Q\<close>, \<open>A\<close>
  and \<open>X\<close> and \<open>schema_return = ["Q", "A"]\<close> the loop removes \<open>X\<close> from the dictionary
  it iterates over and the call ends with a \<open>RuntimeError\<close>.
\<close>

theorem schema_return_pruning_raises:
  "generate latin1_classes char_tokenizer (qa_config\<lparr>schema_return := Some [str ''A'']\<rparr>)
     (default_args\<lparr>schema := True, return_as_list := True\<rparr>)
     (\<lambda>k. [encode char_tokenizer (str ''Q:abA:cd'')]) []
     = Some (Inl AttributeError, [ModelGenerate None None 256 1])
   \<and> generate latin1_classes char_tokenizer
       (qa_config\<lparr>schema_tokens := Some [str ''Q:'', str ''A:'', str ''X:''],
                  schema_return := Some [str ''Q'', str ''A'']\<rparr>)
       (default_args\<lparr>schema := True, return_as_list := True\<rparr>)
       (\<lambda>k. [encode char_tokenizer (str ''Q:abA:cdX:ef'')]) []
     = Some (Inl RuntimeError, [ModelGenerate None None 256 1])"
proof -
  let ?a = "default_args\<lparr>schema := True, return_as_list := True\<rparr>"
  let ?c1 = "qa_config\<lparr>schema_return := Some [str ''A'']\<rparr>"
  let ?c2 = "qa_config\<lparr>schema_tokens := Some [str ''Q:'', str ''A:'', str ''X:''],
                  schema_return := Some [str ''Q'', str ''A'']\<rparr>"
  have s: "schema ?a" by simp
  have ok1: "prompt ?a = [] \<or> int (length (encode char_tokenizer (prompt ?a))) < max_length_of_model ?c1"
    by (simp add: default_args_fields)
  have ok2: "prompt ?a = [] \<or> int (length (encode char_tokenizer (prompt ?a))) < max_length_of_model ?c2"
    by (simp add: default_args_fields)
  have b1: "schema_branch latin1_classes char_tokenizer ?c1 ?a [encode char_tokenizer (str ''Q:abA:cd'')] w
              = (Inl AttributeError, w)" for w
    by code_simp
  have b2: "schema_branch latin1_classes char_tokenizer ?c2 ?a [encode char_tokenizer (str ''Q:abA:cdX:ef'')] w
              = (Inl RuntimeError, w)" for w
    by code_simp
  have g1: "generate latin1_classes char_tokenizer ?c1 ?a (\<lambda>k. [encode char_tokenizer (str ''Q:abA:cd'')]) []
     = Some (Inl AttributeError, [ModelGenerate None None 256 1])"
    by (subst generate_schema [OF s ok1], subst b1)
       (simp add: apply_seed_def sampling_event_def prepare_input_ids_def truthy_def
          default_args_fields qa_config_fields)
  have g2: "generate latin1_classes char_tokenizer ?c2 ?a (\<lambda>k. [encode char_tokenizer (str ''Q:abA:cdX:ef'')]) []
     = Some (Inl RuntimeError, [ModelGenerate None None 256 1])"
    by (subst generate_schema [OF s ok2], subst b2)
       (simp add: apply_seed_def sampling_event_def prepare_input_ids_def truthy_def
          default_args_fields qa_config_fields)
  from g1 g2 show ?thesis by simp
qed

section \<open>The fields of a record\<close>

lemma map_of_dict_setitem: "map_of (dict_setitem d k v) = (map_of d)(k \<mapsto> v)"
  by (induction d k v rule: dict_setitem.induct) auto

lemma schema_token_indices_alt:
  "schema_token_indices tk toks output =
     sort_key snd (map (\<lambda>t. (t, find_index_of_subset output (encode tk t))) toks)"
  by (simp add: schema_token_indices_def zip_map2 zip_same_conv_map comp_def)

lemma set_schema_token_indices:
  "set (schema_token_indices tk toks output) =
     (\<lambda>t. (t, find_index_of_subset output (encode tk t))) ` set toks"
  by (simp add: schema_token_indices_alt)

text \<open>A key that no pair of the list has keeps its value.\<close>

lemma fill_fields_other:
  "\<forall>p\<in>set ps. field_key cc nk (fst p) \<noteq> key \<Longrightarrow>
   map_of (fill_fields cc tk nk output ps d) key = map_of d key"
proof (induction ps arbitrary: d)
  case Nil
  show ?case by simp
next
  case (Cons p ps)
  obtain tok start where p: "p = (tok, start)" by (cases p)
  from Cons.prems have k: "field_key cc nk tok \<noteq> key" and rest: "\<forall>q\<in>set ps. field_key cc nk (fst q) \<noteq> key"
    by (simp_all add: p)
  show ?case
    using k Cons.IH [OF rest] by (simp add: p Let_def map_of_dict_setitem)
qed

text \<open>
  What the loop writes for the pair at position \<open>i\<close> of the sorted list: the empty string
  for a delimiter that was not found, the decoded slice up to one before the next start
  otherwise (to the end for the last pair).
\<close>

lemma fill_fields_nth:
  assumes "i < length ps"
    and "\<forall>j. i < j \<and> j < length ps \<longrightarrow> field_key cc nk (fst (ps ! j)) \<noteq> field_key cc nk (fst (ps ! i))"
  shows "map_of (fill_fields cc tk nk output ps d) (field_key cc nk (fst (ps ! i))) =
     Some (if snd (ps ! i) = - 1 then []
           else decode tk True
                  (py_slice output (snd (ps ! i))
                     (if i + 1 < length ps then Some (snd (ps ! (i + 1)) - 1) else None)))"
  using assms
proof (induction ps arbitrary: d i)
  case Nil
  then show ?case by simp
next
  case (Cons p ps)
  obtain tok start where p: "p = (tok, start)" by (cases p)
  show ?case
  proof (cases i)
    case 0
    have later: "\<forall>q\<in>set ps. field_key cc nk (fst q) \<noteq> field_key cc nk tok"
    proof
      fix q assume "q \<in> set ps"
      then obtain j where j: "j < length ps" "ps ! j = q" by (auto simp: in_set_conv_nth)
      from Cons.prems(2) [rule_format, of "Suc j"] j 0 show "field_key cc nk (fst q) \<noteq> field_key cc nk tok"
        by (simp add: p)
    qed
    have nxt: "(case ps of [] \<Rightarrow> None | nxt # _ \<Rightarrow> Some (snd nxt - 1))
                 = (if 0 + 1 < length (p # ps) then Some (snd ((p # ps) ! (0 + 1)) - 1) else None)"
      by (cases ps) simp_all
    show ?thesis
      using fill_fields_other [OF later] nxt
      by (simp add: 0 p Let_def map_of_dict_setitem)
  next
    case (Suc i')
    from Cons.prems(1) Suc have i': "i' < length ps" by simp
    have later: "\<forall>j. i' < j \<and> j < length ps \<longrightarrow>
                   field_key cc nk (fst (ps ! j)) \<noteq> field_key cc nk (fst (ps ! i'))"
    proof (intro allI impI)
      fix j assume "i' < j \<and> j < length ps"
      with Cons.prems(2) [rule_format, of "Suc j"] Suc
      show "field_key cc nk (fst (ps ! j)) \<noteq> field_key cc nk (fst (ps ! i'))" by simp
    qed
    have "map_of (fill_fields cc tk nk output (p # ps) d) (field_key cc nk (fst (ps ! i')))
          = map_of (fill_fields cc tk nk output ps
                      (dict_setitem d (field_key cc nk tok)
                         (if start = - 1 then []
                          else decode tk True (py_slice output start
                                 (case ps of [] \<Rightarrow> None | nxt # _ \<Rightarrow> Some (snd nxt - 1))))))
              (field_key cc nk (fst (ps ! i')))"
      by (simp add: p Let_def)
    also have "\<dots> = Some (if snd (ps ! i') = - 1 then []
           else decode tk True
                  (py_slice output (snd (ps ! i'))
                     (if i' + 1 < length ps then Some (snd (ps ! (i' + 1)) - 1) else None)))"
      by (rule Cons.IH [OF i' later])
    finally show ?thesis by (simp add: Suc)
  qed
qed

text \<open>A key whose pairs were all not found is mapped to the empty string.\<close>

lemma fill_fields_absent:
  "\<forall>p\<in>set ps. field_key cc nk (fst p) = key \<longrightarrow> snd p = - 1 \<Longrightarrow>
   map_of (fill_fields cc tk nk output ps d) key =
     (if \<exists>p\<in>set ps. field_key cc nk (fst p) = key then Some [] else map_of d key)"
proof (induction ps arbitrary: d)
  case Nil
  show ?case by simp
next
  case (Cons p ps)
  obtain tok start where p: "p = (tok, start)" by (cases p)
  from Cons.prems have rest: "\<forall>q\<in>set ps. field_key cc nk (fst q) = key \<longrightarrow> snd q = - 1"
    by simp
  show ?case
  proof (cases "field_key cc nk tok = key")
    case True
    with Cons.prems have "start = - 1" by (simp add: p)
    with True show ?thesis
      using Cons.IH [OF rest, of "dict_setitem d key []"]
      by (simp add: p Let_def map_of_dict_setitem)
  next
    case False
    then show ?thesis
      using Cons.IH [OF rest] by (simp add: p Let_def map_of_dict_setitem)
  qed
qed

text \<open>A delimiter whose encoding is no contiguous part of the output is not found.\<close>

lemma find_from_found: "find_from xs small idx \<noteq> - 1 \<Longrightarrow> sublist small xs"
proof (induction xs arbitrary: idx)
  case Nil
  then show ?case by simp
next
  case (Cons x xs)
  show ?case
  proof (cases "take (length small) (x # xs) = small")
    case True
    then have "x # xs = small @ drop (length small) (x # xs)"
      by (metis append_take_drop_id)
    then have "x # xs = [] @ small @ drop (length small) (x # xs)" by simp
    then show ?thesis unfolding sublist_def by blast
  next
    case False
    with Cons.prems have "find_from xs small (idx + 1) \<noteq> - 1" by simp
    then have "sublist small xs" by (rule Cons.IH)
    then show ?thesis by (simp add: sublist_Cons_right)
  qed
qed

lemma not_sublist_not_found:
  "\<not> sublist small large \<Longrightarrow> find_index_of_subset large small = - 1"
  using find_from_found [of large small 0] by (auto simp: find_index_of_subset_def)

text \<open>
  A delimiter with a non-empty encoding that is a contiguous part of the output is found,
  and the index that is returned is the start of an occurrence.
\<close>

lemma find_from_sublist:
  "small \<noteq> [] \<Longrightarrow> sublist small xs \<Longrightarrow> 0 \<le> idx \<Longrightarrow> find_from xs small idx \<noteq> - 1"
proof (induction xs arbitrary: idx)
  case Nil
  then show ?case by simp
next
  case (Cons x xs)
  show ?case
  proof (cases "take (length small) (x # xs) = small")
    case True
    with Cons.prems(3) show ?thesis by simp
  next
    case False
    then have "\<not> prefix small (x # xs)"
      by (metis append_eq_conv_conj prefix_def)
    with Cons.prems(2) have "sublist small xs" by (simp add: sublist_Cons_right)
    with Cons.prems(1,3) have "find_from xs small (idx + 1) \<noteq> - 1"
      by (intro Cons.IH) simp_all
    with False show ?thesis by simp
  qed
qed

lemma found_iff_sublist:
  "find_index_of_subset large small \<noteq> - 1 \<longleftrightarrow> small \<noteq> [] \<and> sublist small large"
proof
  assume f: "find_index_of_subset large small \<noteq> - 1"
  then have ne: "small \<noteq> []" by (auto simp: find_index_of_subset_def)
  with f have "find_from large small 0 \<noteq> - 1" by (simp add: find_index_of_subset_def)
  then have "sublist small large" by (rule find_from_found)
  with ne show "small \<noteq> [] \<and> sublist small large" by simp
next
  assume "small \<noteq> [] \<and> sublist small large"
  then show "find_index_of_subset large small \<noteq> - 1"
    using find_from_sublist [of small large 0] by (simp add: find_index_of_subset_def)
qed

lemma find_from_occurrence:
  "find_from xs small idx \<noteq> - 1 \<Longrightarrow> 0 \<le> idx \<Longrightarrow>
   take (length small) (drop (nat (find_from xs small idx - idx)) xs) = small"
proof (induction xs arbitrary: idx)
  case Nil
  then show ?case by simp
next
  case (Cons x xs)
  show ?case
  proof (cases "take (length small) (x # xs) = small")
    case True
    then show ?thesis by simp
  next
    case False
    with Cons.prems have nf: "find_from xs small (idx + 1) \<noteq> - 1" by simp
    from Cons.prems(2) have "0 \<le> idx + 1" by simp
    with nf have ih: "take (length small) (drop (nat (find_from xs small (idx + 1) - (idx + 1))) xs) = small"
      by (rule Cons.IH)
    from find_from_ge [of xs small "idx + 1"] nf
    have "idx + 1 \<le> find_from xs small (idx + 1)" by simp
    then have "nat (find_from xs small (idx + 1) - idx)
                 = Suc (nat (find_from xs small (idx + 1) - (idx + 1)))"
      by simp
    with ih False show ?thesis by simp
  qed
qed

lemma found_index_is_occurrence:
  assumes "find_index_of_subset large small \<noteq> - 1"
  shows "0 \<le> find_index_of_subset large small
     \<and> take (length small) (drop (nat (find_index_of_subset large small)) large) = small"
proof -
  from assms have f: "find_index_of_subset large small = find_from large small 0"
    and nf: "find_from large small 0 \<noteq> - 1"
    by (auto simp: find_index_of_subset_def split: if_splits)
  from find_from_ge [of large small 0] nf have "0 \<le> find_from large small 0" by simp
  moreover from find_from_occurrence [OF nf] have
    "take (length small) (drop (nat (find_from large small 0)) large) = small" by simp
  ultimately show ?thesis by (simp add: f)
qed


section \<open>The schedule of cross-training\<close>

lemma comprehension_Inr:
  "\<forall>x\<in>set xs. f x = Inr (g x) \<Longrightarrow> comprehension f xs = Inr (map g xs)"
  by (induction xs) simp_all

lemma comprehension_Inl:
  "\<exists>x\<in>set xs. f x = Inl e \<Longrightarrow> \<forall>x\<in>set xs. \<forall>e'. f x = Inl e' \<longrightarrow> e' = e \<Longrightarrow>
   comprehension f xs = Inl e"
proof (induction xs)
  case Nil
  then show ?case by simp
next
  case (Cons x xs)
  show ?case
  proof (cases "f x")
    case (Inl e')
    with Cons.prems(2) have "e' = e" by simp
    with Inl show ?thesis by simp
  next
    case (Inr y)
    with Cons.prems(1) have ex: "\<exists>x\<in>set xs. f x = Inl e" by auto
    from Cons.prems(2) have "\<forall>x\<in>set xs. \<forall>e'. f x = Inl e' \<longrightarrow> e' = e" by simp
    with ex have "comprehension f xs = Inl e" by (rule Cons.IH)
    with Inr show ?thesis by simp
  qed
qed

text \<open>The doubles that the schedule meets.\<close>

lemma is_double_pow2:
  assumes "x < 1024"
  shows "is_double (2 ^ x)"
proof (cases "x \<le> 971")
  case True
  have "\<bar>1 :: int\<bar> < 2 ^ 53" by simp
  moreover have "(2 :: rat) ^ x = of_int 1 * 2 ^ x / 2 ^ 0" by simp
  ultimately show ?thesis
    unfolding is_double_def using True by (intro exI [of _ 1] exI [of _ x] exI [of _ 0]) simp
next
  case False
  define j where "j = x - 971"
  from False assms have j: "j \<le> 52" and x: "x = j + 971" by (simp_all add: j_def)
  from j have "j < 53" by simp
  then have "(2 :: int) ^ j < 2 ^ 53" by (rule power_strict_increasing) simp
  then have m: "\<bar>(2 :: int) ^ j\<bar> < 2 ^ 53" by simp
  have "(2 :: rat) ^ x = of_int (2 ^ j) * 2 ^ 971 / 2 ^ 0"
    by (simp add: x power_add)
  with m show ?thesis
    unfolding is_double_def
    by (intro exI [of _ "2 ^ j"] exI [of _ 971] exI [of _ 0]) simp
qed

lemma is_double_steps:
  assumes "0 \<le> s" and "s < 2 ^ 53" and "x \<le> 1074"
  shows "is_double (of_int s / 2 ^ x)"
proof -
  from assms(1,2) have "\<bar>s\<bar> < 2 ^ 53" by simp
  moreover have "(of_int s :: rat) / 2 ^ x = of_int s * 2 ^ 0 / 2 ^ x" by simp
  ultimately show ?thesis
    unfolding is_double_def using assms(3)
    by (intro exI [of _ s] exI [of _ 0] exI [of _ x]) simp
qed

lemma is_double_rate:
  assumes "\<bar>m\<bar> < 2 ^ 53" and "u \<le> 971" and "d + x \<le> 1074"
  shows "is_double (of_int m * 2 ^ u / 2 ^ d / 2 ^ x)"
proof -
  have "(of_int m :: rat) * 2 ^ u / 2 ^ d / 2 ^ x = of_int m * 2 ^ u / 2 ^ (d + x)"
    by (simp add: power_add)
  with assms show ?thesis
    unfolding is_double_def
    by (intro exI [of _ m] exI [of _ u] exI [of _ "d + x"]) simp
qed

lemma is_double_bound:
  assumes "is_double q"
  shows "\<bar>q\<bar> < 2 ^ 1024"
proof -
  from assms obtain m u d where m: "\<bar>m\<bar> < 2 ^ 53" and u: "u \<le> 971"
    and q: "q = of_int m * 2 ^ u / 2 ^ d"
    unfolding is_double_def by blast
  have "\<bar>q\<bar> = of_int \<bar>m\<bar> * 2 ^ u / 2 ^ d"
    by (simp add: q abs_mult)
  also have "\<dots> \<le> of_int \<bar>m\<bar> * 2 ^ u"
  proof -
    have "(1 :: rat) \<le> 2 ^ d" by simp
    moreover have "(0 :: rat) \<le> of_int \<bar>m\<bar> * 2 ^ u" by simp
    ultimately show ?thesis
      by (metis div_by_1 divide_left_mono zero_less_one mult.commute mult_1 frac_le order_refl zero_less_one)
  qed
  also have "\<dots> < 2 ^ 53 * 2 ^ 971"
  proof -
    from m have "(of_int \<bar>m\<bar> :: rat) < 2 ^ 53"
      by (metis of_int_less_numeral_power_cancel_iff)
    moreover have "(2 :: rat) ^ u \<le> 2 ^ 971" using u by (rule power_increasing) simp
    moreover have "(0 :: rat) \<le> of_int \<bar>m\<bar>" by simp
    moreover have "(0 :: rat) < 2 ^ u" by simp
    ultimately show ?thesis by (rule mult_less_le_imp_less)
  qed
  also have "(2 :: rat) ^ 53 * 2 ^ 971 = 2 ^ 1024"
    by (simp add: power_add [symmetric])
  finally show ?thesis .
qed

lemma correctly_rounded_exact_arith: "correctly_rounded exact_arith"
proof -
  have "float_of_int exact_arith i = Some (of_int i)" if "is_double (of_int i)" for i
  proof -
    from is_double_bound [OF that] have "\<bar>(of_int i :: rat)\<bar> < 2 ^ 1024" .
    then have "(of_int \<bar>i\<bar> :: rat) < 2 ^ 1024" by simp
    then have "\<bar>i\<bar> < 2 ^ 1024"
      by (metis of_int_less_numeral_power_cancel_iff)
    then show ?thesis by (simp add: exact_arith_def)
  qed
  then show ?thesis
    by (simp add: correctly_rounded_def exact_arith_def)
qed

text \<open>
  Claim C7 says that a single learning rate and a single step budget over \<open>k\<close> datasets
  give the steps \<open>floor (steps_0 / 2 ^ i)\<close>. The conversion \<open>int\<close> cuts the fraction
  off towards zero, which is not the floor of a negative number: a budget of \<open>-5\<close> over
  two datasets gives \<open>-5\<close> and \<open>-2\<close>, and the floor of \<open>-5 / 2\<close> is \<open>-3\<close>.
\<close>

theorem negative_budget_counterexample:
  "cross_train_schedule exact_arith 2 (Scalar (7378697629483821 / 2 ^ 66)) (Scalar (- 5))
     = Inr [(7378697629483821 / 2 ^ 66, - 5), (7378697629483821 / 2 ^ 67, - 2)]
   \<and> \<lfloor>(of_int (- 5) :: rat) / 2 ^ 1\<rfloor> = - 3"
proof -
  have u: "[0..<2] = [0, 1]" by (simp add: upt_rec)
  have c0: "\<lceil>- (5 :: rat)\<rceil> = - 5" by (rule ceiling_unique) simp_all
  have c1: "\<lceil>- (5 / 2 :: rat)\<rceil> = - 2" by (rule ceiling_unique) simp_all
  have "cross_train_schedule exact_arith 2 (Scalar (7378697629483821 / 2 ^ 66)) (Scalar (- 5))
     = Inr [(7378697629483821 / 2 ^ 66, - 5), (7378697629483821 / 2 ^ 67, - 2)]"
    by (simp add: cross_train_schedule_def halved_rate_def halved_steps_def exact_arith_def
        py_int_def u c0 c1)
  moreover have "\<lfloor>(of_int (- 5) :: rat) / 2 ^ 1\<rfloor> = - 3"
    by (rule floor_unique) simp_all
  ultimately show ?thesis by simp
qed

text \<open>
  Claim C7, amended: in cross-training with a single learning rate \<open>r\<close> and a single
  step budget \<open>s\<close> over \<open>k\<close> datasets, dataset \<open>i\<close> (from 0 to \<open>k - 1\<close>) is trained
  with the learning rate \<open>r / 2 ^ i\<close> and with \<open>floor (s / 2 ^ i)\<close> steps, provided that
  there are at most 1024 datasets, that the budget is not negative and below \<open>2 ^ 53\<close>,
  and that the learning rate is a double \<open>m * 2 ^ u / 2 ^ d\<close> whose halvings do not
  underflow (\<open>d + k \<le> 1075\<close>), on a correctly rounded arithmetic.
\<close>

theorem cross_train_halving:
  assumes "correctly_rounded fa"
    and "k \<le> 1024" and "0 \<le> s" and "s < 2 ^ 53"
    and "r = of_int m * 2 ^ u / 2 ^ d" and "\<bar>m\<bar> < 2 ^ 53" and "u \<le> 971" and "d + k \<le> 1075"
  shows "\<exists>sched. cross_train_schedule fa k (Scalar r) (Scalar s) = Inr sched \<and> length sched = k \<and>
     (\<forall>i<k. fst (sched ! i) = r / 2 ^ i \<and> snd (sched ! i) = \<lfloor>(of_int s :: rat) / 2 ^ i\<rfloor>)"
proof -
  have rate: "halved_rate fa r x = Inr (r / 2 ^ x)" if "x < k" for x
  proof -
    from that assms(2) have x: "x < 1024" by simp
    from that assms(8) have dx: "d + x \<le> 1074" and d0: "d + 0 \<le> 1074" by simp_all
    have p: "is_double (2 ^ x)" using x by (rule is_double_pow2)
    then have "is_double (of_int (2 ^ x))" by simp
    with assms(1) have f: "float_of_int fa (2 ^ x) = Some (2 ^ x)"
      by (simp add: correctly_rounded_def)
    have "is_double (of_int m * 2 ^ u / 2 ^ d / 2 ^ 0)"
      using assms(6,7) d0 by (rule is_double_rate)
    then have r0: "is_double r" by (simp add: assms(5))
    have rx: "is_double (r / 2 ^ x)"
      unfolding assms(5) using assms(6,7) dx by (rule is_double_rate)
    from assms(1) r0 p rx have "float_div fa r (2 ^ x) = r / 2 ^ x"
      by (simp add: correctly_rounded_def)
    with f show ?thesis by (simp add: halved_rate_def)
  qed
  have steps: "halved_steps fa s x = Inr \<lfloor>(of_int s :: rat) / 2 ^ x\<rfloor>" if "x < k" for x
  proof -
    from that assms(2) have "x \<le> 1074" by simp
    with assms(3,4) have "is_double (of_int s / 2 ^ x)" by (rule is_double_steps)
    then have "is_double (of_int s / of_int (2 ^ x))" by simp
    moreover have "(2 :: int) ^ x \<noteq> 0" by simp
    ultimately have "int_div fa s (2 ^ x) = Some (of_int s / of_int (2 ^ x))"
      using assms(1) unfolding correctly_rounded_def by blast
    moreover have "(0 :: rat) \<le> of_int s / 2 ^ x" using assms(3) by simp
    ultimately show ?thesis by (simp add: halved_steps_def py_int_def)
  qed
  have lr: "comprehension (halved_rate fa r) [0..<k] = Inr (map (\<lambda>x. r / 2 ^ x) [0..<k])"
    by (rule comprehension_Inr) (simp add: rate)
  have st: "comprehension (halved_steps fa s) [0..<k]
              = Inr (map (\<lambda>x. \<lfloor>(of_int s :: rat) / 2 ^ x\<rfloor>) [0..<k])"
    by (rule comprehension_Inr) (simp add: steps)
  have "cross_train_schedule fa k (Scalar r) (Scalar s)
          = Inr (zip (map (\<lambda>x. r / 2 ^ x) [0..<k])
                     (map (\<lambda>x. \<lfloor>(of_int s :: rat) / 2 ^ x\<rfloor>) [0..<k]))"
    by (simp add: cross_train_schedule_def lr st)
  then show ?thesis by simp
qed

text \<open>
  The example of the claim: the learning rate \<open>1e-4\<close>, which is the double
  \<open>7378697629483821 / 2 ^ 66\<close>, and the default 4000 steps over three datasets. The
  rates are that double, its half and its quarter, which are the doubles \<open>5e-5\<close> and
  \<open>2.5e-5\<close>.
\<close>

theorem cross_train_halving_witness:
  "correctly_rounded exact_arith
   \<and> cross_train_schedule exact_arith 3 (Scalar (7378697629483821 / 2 ^ 66)) (Scalar 4000)
     = Inr [(7378697629483821 / 2 ^ 66, 4000), (7378697629483821 / 2 ^ 67, 2000),
            (7378697629483821 / 2 ^ 68, 1000)]"
proof -
  let ?r = "7378697629483821 / 2 ^ 66 :: rat"
  have r: "?r = of_int 7378697629483821 * 2 ^ 0 / 2 ^ 66" by simp
  have m: "\<bar>7378697629483821 :: int\<bar> < 2 ^ 53" by simp
  from cross_train_halving [OF correctly_rounded_exact_arith _ _ _ r m, of 3 4000]
  obtain sched where s: "cross_train_schedule exact_arith 3 (Scalar ?r) (Scalar 4000) = Inr sched"
    and len: "length sched = 3"
    and vals: "\<forall>i<3. fst (sched ! i) = ?r / 2 ^ i \<and>
        snd (sched ! i) = \<lfloor>(of_int 4000 :: rat) / 2 ^ i\<rfloor>"
    by auto
  from len obtain x y z where xyz: "sched = [x, y, z]"
    by (auto simp: numeral_3_eq_3 length_Suc_conv)
  from vals have "\<forall>i\<in>{0, 1, 2}. fst (sched ! i) = ?r / 2 ^ i \<and>
        snd (sched ! i) = \<lfloor>(of_int 4000 :: rat) / 2 ^ i\<rfloor>"
    by simp
  with xyz have "x = (?r, 4000) \<and> y = (7378697629483821 / 2 ^ 67, 2000)
                 \<and> z = (7378697629483821 / 2 ^ 68, 1000)"
    by (simp add: prod_eq_iff)
  with xyz s correctly_rounded_exact_arith show ?thesis by simp
qed

text \<open>
  From 1025 datasets on, the conversion of \<open>2 ** 1024\<close> to a float raises
  \<open>OverflowError\<close> and no run of \<open>train\<close> is started.
\<close>

lemma cross_train_overflow:
  assumes "float_of_int fa (2 ^ 1024) = None" and "1024 < k"
  shows "cross_train_schedule fa k (Scalar r) steps = Inl OverflowError"
proof -
  have "halved_rate fa r 1024 = Inl OverflowError"
    using assms(1) by (simp add: halved_rate_def)
  moreover have "(1024 :: nat) \<in> set [0..<k]" using assms(2) by simp
  ultimately have ex: "\<exists>x\<in>set [0..<k]. halved_rate fa r x = Inl OverflowError" by blast
  have only: "\<forall>x\<in>set [0..<k]. \<forall>e'. halved_rate fa r x = Inl e' \<longrightarrow> e' = OverflowError"
    by (auto simp: halved_rate_def split: option.splits)
  from ex only have "comprehension (halved_rate fa r) [0..<k] = Inl OverflowError"
    by (rule comprehension_Inl)
  then show ?thesis by (simp add: cross_train_schedule_def)
qed


section \<open>Schema mode samples once\<close>





section \<open>The typical path retries until a batch is left\<close>

lemma bold_prompt_nonempty: "texts \<noteq> [] \<Longrightarrow> bold_prompt a texts \<noteq> []"
  by (simp add: bold_prompt_def)

text \<open>What the end of the typical branch returns, prints and leaves in the trace.\<close>

lemma typical_finish_explicit:
  assumes "texts \<noteq> []"
  shows "typical_finish a texts w =
     (if return_as_list a then (Inr (RetList (map Str texts)), reset_seed a w)
      else (Inr RetNone,
            reset_seed a w
              @ [Print (map Str (if 1 < n_texts a then bold_prompt a texts
                                 else [hd (bold_prompt a texts)]))]))"
proof (cases "return_as_list a")
  case True
  then show ?thesis by (simp add: typical_finish_def Let_def)
next
  case False
  from bold_prompt_nonempty [OF assms, of a] obtain t ts where b: "bold_prompt a texts = t # ts"
    by (cases "bold_prompt a texts") auto
  show ?thesis
  proof (cases "1 < n_texts a")
    case True
    with False show ?thesis by (simp add: typical_finish_def Let_def)
  next
    case n: False
    with False b show ?thesis by (simp add: typical_finish_def Let_def)
  qed
qed

text \<open>
  Claim C6 says that the batch that is returned is the decoded batch without the
  sequences that are shorter than the minimum length. The filter keeps a text only when
  it is longer than \<open>min_length\<close>, so a text of exactly that length goes as well: with
  two texts asked for and a minimum of 3, the batch \<open>abc\<close>, \<open>abcd\<close> comes back as
  \<open>abcd\<close> alone, while none of the two is shorter than 3.
\<close>

theorem min_length_filter_counterexample:
  "generate latin1_classes char_tokenizer qa_config
     (default_args\<lparr>n_texts := 2, min_length := Some 3, return_as_list := True\<rparr>)
     (\<lambda>k. [encode char_tokenizer (str ''abc''), encode char_tokenizer (str ''abcd'')]) []
     = Some (Inr (RetList [Str (str ''abcd'')]), [ModelGenerate None (Some 3) 256 2])
   \<and> filter (\<lambda>x. \<not> int (length x) < 3)
        (map (decode char_tokenizer True)
           [encode char_tokenizer (str ''abc''), encode char_tokenizer (str ''abcd'')])
      = [str ''abc'', str ''abcd'']"
proof -
  let ?a = "default_args\<lparr>n_texts := 2, min_length := Some 3, return_as_list := True\<rparr>"
  let ?m = "\<lambda>k::nat. [encode char_tokenizer (str ''abc''), encode char_tokenizer (str ''abcd'')]"
  have c: "cleanup latin1_classes char_tokenizer ?a (?m 0) = [str ''abcd'']" by code_simp
  have ns: "\<not> schema ?a" by (simp add: default_args_fields)
  have ok: "prompt ?a = [] \<or> int (length (encode char_tokenizer (prompt ?a))) < max_length_of_model qa_config"
    by (simp add: default_args_fields)
  have "generate latin1_classes char_tokenizer qa_config ?a ?m []
        = Some (typical_finish ?a (cleanup latin1_classes char_tokenizer ?a (?m 0))
                  (apply_seed ?a [] @ replicate (0 + 1) (sampling_event char_tokenizer qa_config ?a)))"
    by (rule generate_typical [OF ns ok]) (simp_all add: c)
  also have "\<dots> = Some (Inr (RetList [Str (str ''abcd'')]), [ModelGenerate None (Some 3) 256 2])"
    by (subst c)
       (simp add: typical_finish_def reset_seed_def apply_seed_def sampling_event_def
          prepare_input_ids_def truthy_def default_args_fields qa_config_fields)
  finally have g: "generate latin1_classes char_tokenizer qa_config ?a ?m []
        = Some (Inr (RetList [Str (str ''abcd'')]), [ModelGenerate None (Some 3) 256 2])" .
  have f: "filter (\<lambda>x. \<not> int (length x) < 3)
        (map (decode char_tokenizer True)
           [encode char_tokenizer (str ''abc''), encode char_tokenizer (str ''abcd'')])
      = [str ''abc'', str ''abcd'']"
    by code_simp
  from g f show ?thesis by simp
qed

text \<open>
  Claim C6, amended: on the typical path with \<open>nonempty_output\<close>, for every call whose
  prompt passes the check of the context length, the batch of an attempt is the decoded
  batch (stripped on the left when \<open>lstrip\<close> is set) without the texts whose length is
  not greater than \<open>min_length\<close> (not greater than 0 when \<open>min_length\<close> is \<open>None\<close> or
  0). The call comes back exactly when some attempt leaves a batch that is not empty,
  and then with the batch of the first such attempt \<open>k\<close>, after \<open>k + 1\<close> sampling
  passes, every attempt before it having been sampled anew. With \<open>return_as_list\<close>
  that batch is returned as it is; otherwise it is printed with the first occurrence of
  the prompt in bold in every text (all of it when \<open>n\<close> is greater than 1, its first
  text otherwise) and nothing is returned. When every attempt leaves an empty batch the
  call never comes back.
\<close>

theorem retry_until_nonempty:
  assumes ns: "\<not> schema a" and neo: "nonempty_output a"
    and ok: "prompt a = [] \<or> int (length (encode tk (prompt a))) < max_length_of_model cfg"
  shows "(generate cc tk cfg a model w = None \<longleftrightarrow> (\<forall>k. cleanup cc tk a (model k) = []))
     \<and> (\<forall>r w'. generate cc tk cfg a model w = Some (r, w') \<longrightarrow>
          (\<exists>k w1. (\<forall>j<k. cleanup cc tk a (model j) = []) \<and> cleanup cc tk a (model k) \<noteq> []
             \<and> cleanup cc tk a (model k) =
                 filter (\<lambda>x. (if truthy (min_length a) then the (min_length a) else 0)
                               < int (length x))
                   (map (\<lambda>ts. (if lstrip a then lstrip_spaces cc else id)
                                 (decode tk (skip_special_tokens a) ts)) (model k))
             \<and> sampling_passes w1 = sampling_passes w + (k + 1)
             \<and> (return_as_list a \<longrightarrow>
                  r = Inr (RetList (map Str (cleanup cc tk a (model k))))
                  \<and> w' = reset_seed a w1)
             \<and> (\<not> return_as_list a \<longrightarrow>
                  r = Inr RetNone
                  \<and> w' = reset_seed a w1
                           @ [Print (map Str
                                (if 1 < n_texts a then bold_prompt a (cleanup cc tk a (model k))
                                 else [hd (bold_prompt a (cleanup cc tk a (model k)))]))])))"
proof -
  have first: "generate cc tk cfg a model w =
      Some (typical_finish a (cleanup cc tk a (model k))
              (apply_seed a w @ replicate (k + 1) (sampling_event tk cfg a)))"
    if "\<forall>j<k. cleanup cc tk a (model j) = []" "cleanup cc tk a (model k) \<noteq> []" for k
    using ns ok that by (rule generate_typical)
  have least: "\<exists>k. (\<forall>j<k. cleanup cc tk a (model j) = []) \<and> cleanup cc tk a (model k) \<noteq> []"
    if ex: "\<exists>k. cleanup cc tk a (model k) \<noteq> []"
  proof -
    define k where "k = (LEAST k. cleanup cc tk a (model k) \<noteq> [])"
    have "cleanup cc tk a (model k) \<noteq> []"
      unfolding k_def using ex by (rule LeastI_ex)
    moreover have "\<forall>j<k. cleanup cc tk a (model j) = []"
      unfolding k_def using not_less_Least by blast
    ultimately show ?thesis by blast
  qed
  have none_iff: "generate cc tk cfg a model w = None \<longleftrightarrow> (\<forall>k. cleanup cc tk a (model k) = [])"
  proof
    assume n: "generate cc tk cfg a model w = None"
    show "\<forall>k. cleanup cc tk a (model k) = []"
    proof (rule ccontr)
      assume "\<not> (\<forall>k. cleanup cc tk a (model k) = [])"
      then have "\<exists>k. cleanup cc tk a (model k) \<noteq> []" by simp
      from least [OF this] obtain k where
        "\<forall>j<k. cleanup cc tk a (model j) = []" "cleanup cc tk a (model k) \<noteq> []"
        by blast
      from first [OF this] n show False by simp
    qed
  next
    assume "\<forall>k. cleanup cc tk a (model k) = []"
    with ns ok show "generate cc tk cfg a model w = None"
      by (rule generate_never_returns)
  qed
  have some: "\<exists>k w1. (\<forall>j<k. cleanup cc tk a (model j) = []) \<and> cleanup cc tk a (model k) \<noteq> []
             \<and> cleanup cc tk a (model k) =
                 filter (\<lambda>x. (if truthy (min_length a) then the (min_length a) else 0)
                               < int (length x))
                   (map (\<lambda>ts. (if lstrip a then lstrip_spaces cc else id)
                                 (decode tk (skip_special_tokens a) ts)) (model k))
             \<and> sampling_passes w1 = sampling_passes w + (k + 1)
             \<and> (return_as_list a \<longrightarrow>
                  r = Inr (RetList (map Str (cleanup cc tk a (model k))))
                  \<and> w' = reset_seed a w1)
             \<and> (\<not> return_as_list a \<longrightarrow>
                  r = Inr RetNone
                  \<and> w' = reset_seed a w1
                           @ [Print (map Str
                                (if 1 < n_texts a then bold_prompt a (cleanup cc tk a (model k))
                                 else [hd (bold_prompt a (cleanup cc tk a (model k)))]))])"
    if ret: "generate cc tk cfg a model w = Some (r, w')" for r w'
  proof -
    from ret none_iff have "\<exists>k. cleanup cc tk a (model k) \<noteq> []" by auto
    from least [OF this] obtain k where
      em: "\<forall>j<k. cleanup cc tk a (model j) = []" and ne: "cleanup cc tk a (model k) \<noteq> []"
      by blast
    let ?w1 = "apply_seed a w @ replicate (k + 1) (sampling_event tk cfg a)"
    let ?b = "cleanup cc tk a (model k)"
    from first [OF em ne] ret
    have eq: "(r, w') = typical_finish a ?b ?w1" by simp
    have pw: "sampling_passes ?w1 = sampling_passes w + (k + 1)"
      by (simp only: sampling_passes_append sampling_passes_apply_seed sampling_passes_event)
    have rl: "return_as_list a \<longrightarrow> r = Inr (RetList (map Str ?b)) \<and> w' = reset_seed a ?w1"
    proof
      assume "return_as_list a"
      with eq have "(r, w') = (Inr (RetList (map Str ?b)), reset_seed a ?w1)"
        by (simp only: typical_finish_explicit [OF ne] if_True)
      then show "r = Inr (RetList (map Str ?b)) \<and> w' = reset_seed a ?w1"
        by (simp only: prod.inject)
    qed
    have pr: "\<not> return_as_list a \<longrightarrow>
                  r = Inr RetNone
                  \<and> w' = reset_seed a ?w1
                           @ [Print (map Str
                                (if 1 < n_texts a then bold_prompt a ?b
                                 else [hd (bold_prompt a ?b)]))]"
    proof
      assume "\<not> return_as_list a"
      with eq have "(r, w') = (Inr RetNone,
                  reset_seed a ?w1
                           @ [Print (map Str
                                (if 1 < n_texts a then bold_prompt a ?b
                                 else [hd (bold_prompt a ?b)]))])"
        by (simp only: typical_finish_explicit [OF ne] if_False)
      then show "r = Inr RetNone
                  \<and> w' = reset_seed a ?w1
                           @ [Print (map Str
                                (if 1 < n_texts a then bold_prompt a ?b
                                 else [hd (bold_prompt a ?b)]))]"
        by (simp only: prod.inject)
    qed
    show ?thesis
    proof (intro exI conjI)
      show "\<forall>j<k. cleanup cc tk a (model j) = []" by (rule em)
      show "?b \<noteq> []" by (rule ne)
      show "?b =
                 filter (\<lambda>x. (if truthy (min_length a) then the (min_length a) else 0)
                               < int (length x))
                   (map (\<lambda>ts. (if lstrip a then lstrip_spaces cc else id)
                                 (decode tk (skip_special_tokens a) ts)) (model k))"
        by (rule cleanup_filter [OF neo])
      show "sampling_passes ?w1 = sampling_passes w + (k + 1)" by (rule pw)
      show "return_as_list a \<longrightarrow> r = Inr (RetList (map Str ?b)) \<and> w' = reset_seed a ?w1"
        by (rule rl)
      show "\<not> return_as_list a \<longrightarrow>
                  r = Inr RetNone
                  \<and> w' = reset_seed a ?w1
                           @ [Print (map Str
                                (if 1 < n_texts a then bold_prompt a ?b
                                 else [hd (bold_prompt a ?b)]))]"
        by (rule pr)
    qed
  qed
  show ?thesis
  proof (intro conjI allI impI)
    show "generate cc tk cfg a model w = None \<longleftrightarrow> (\<forall>k. cleanup cc tk a (model k) = [])"
      by (rule none_iff)
  next
    fix r w'
    assume "generate cc tk cfg a model w = Some (r, w')"
    then show "\<exists>k w1. (\<forall>j<k. cleanup cc tk a (model j) = []) \<and> cleanup cc tk a (model k) \<noteq> []
             \<and> cleanup cc tk a (model k) =
                 filter (\<lambda>x. (if truthy (min_length a) then the (min_length a) else 0)
                               < int (length x))
                   (map (\<lambda>ts. (if lstrip a then lstrip_spaces cc else id)
                                 (decode tk (skip_special_tokens a) ts)) (model k))
             \<and> sampling_passes w1 = sampling_passes w + (k + 1)
             \<and> (return_as_list a \<longrightarrow>
                  r = Inr (RetList (map Str (cleanup cc tk a (model k))))
                  \<and> w' = reset_seed a w1)
             \<and> (\<not> return_as_list a \<longrightarrow>
                  r = Inr RetNone
                  \<and> w' = reset_seed a w1
                           @ [Print (map Str
                                (if 1 < n_texts a then bold_prompt a (cleanup cc tk a (model k))
                                 else [hd (bold_prompt a (cleanup cc tk a (model k)))]))])"
      by (rule some)
  qed
qed

text \<open>
  An example with a seed: the first two batches are white space only (the second a
  no-break space) and are dropped, the third attempt gives \<open>hi\<close>, which is returned after
  three sampling passes.
\<close>

theorem retry_until_nonempty_witness:
  "\<not> schema (default_args\<lparr>return_as_list := True, seed := Some 7\<rparr>)
   \<and> nonempty_output (default_args\<lparr>return_as_list := True, seed := Some 7\<rparr>)
   \<and> generate latin1_classes char_tokenizer qa_config
       (default_args\<lparr>return_as_list := True, seed := Some 7\<rparr>)
       (\<lambda>k. if k = 0 then [encode char_tokenizer (str ''  '')]
            else if k = 1 then [[160]] else [encode char_tokenizer (str '' hi'')]) []
     = Some (Inr (RetList [Str (str ''hi'')]),
         [SetSeed 7, ModelGenerate None None 256 1, ModelGenerate None None 256 1,
          ModelGenerate None None 256 1, ResetSeed])
   \<and> (\<exists>k::nat. cleanup latin1_classes char_tokenizer
            (default_args\<lparr>return_as_list := True, seed := Some 7\<rparr>)
            (if k = 0 then [encode char_tokenizer (str ''  '')]
             else if k = 1 then [[160]] else [encode char_tokenizer (str '' hi'')])
          \<noteq> [])"
proof -
  let ?a = "default_args\<lparr>return_as_list := True, seed := Some 7\<rparr>"
  let ?m = "\<lambda>k::nat. if k = 0 then [encode char_tokenizer (str ''  '')]
            else if k = 1 then [[160]] else [encode char_tokenizer (str '' hi'')]"
  have c0: "cleanup latin1_classes char_tokenizer ?a [encode char_tokenizer (str ''  '')] = []"
    by code_simp
  have c1: "cleanup latin1_classes char_tokenizer ?a [[160]] = []" by code_simp
  have c2: "cleanup latin1_classes char_tokenizer ?a [encode char_tokenizer (str '' hi'')] = [str ''hi'']"
    by code_simp
  have c2m: "cleanup latin1_classes char_tokenizer ?a (?m 2) = [str ''hi'']" using c2 by simp
  have ns: "\<not> schema ?a" by (simp add: default_args_fields)
  have neo: "nonempty_output ?a" by (simp add: default_args_fields)
  have ok: "prompt ?a = [] \<or> int (length (encode char_tokenizer (prompt ?a))) < max_length_of_model qa_config"
    by (simp add: default_args_fields)
  have em: "\<forall>j<2. cleanup latin1_classes char_tokenizer ?a (?m j) = []"
  proof (intro allI impI)
    fix j :: nat assume "j < 2"
    then have "j = 0 \<or> j = 1" by auto
    then show "cleanup latin1_classes char_tokenizer ?a (?m j) = []"
      using c0 c1 by auto
  qed
  have ne: "cleanup latin1_classes char_tokenizer ?a (?m 2) \<noteq> []"
    by (simp only: c2m) (simp add: str_def)
  have "generate latin1_classes char_tokenizer qa_config ?a ?m []
        = Some (typical_finish ?a (cleanup latin1_classes char_tokenizer ?a (?m 2))
                  (apply_seed ?a [] @ replicate (2 + 1) (sampling_event char_tokenizer qa_config ?a)))"
    using ns ok em ne by (rule generate_typical)
  also have "\<dots> = Some (Inr (RetList [Str (str ''hi'')]),
         [SetSeed 7, ModelGenerate None None 256 1, ModelGenerate None None 256 1,
          ModelGenerate None None 256 1, ResetSeed])"
    by (subst c2m)
       (simp add: typical_finish_def reset_seed_def apply_seed_def sampling_event_def
          prepare_input_ids_def truthy_def default_args_fields qa_config_fields numeral_3_eq_3)
  finally have g: "generate latin1_classes char_tokenizer qa_config ?a ?m []
        = Some (Inr (RetList [Str (str ''hi'')]),
         [SetSeed 7, ModelGenerate None None 256 1, ModelGenerate None None 256 1,
          ModelGenerate None None 256 1, ResetSeed])" .
  from retry_until_nonempty [OF ns neo ok, of latin1_classes ?m "[]"] g
  have "\<not> (\<forall>k. cleanup latin1_classes char_tokenizer ?a (?m k) = [])"
    by simp
  then have "\<exists>k. cleanup latin1_classes char_tokenizer ?a (?m k) \<noteq> []" by simp
  with ns neo g show ?thesis by simp
qed


section \<open>The record that is produced for an output\<close>

lemma filter_same_length: "length (filter P xs) = length xs \<Longrightarrow> filter P xs = xs"
proof (induction xs)
  case Nil
  show ?case by simp
next
  case (Cons x xs)
  show ?case
  proof (cases "P x")
    case True
    with Cons show ?thesis by simp
  next
    case False
    have "length (filter P xs) \<le> length xs" by (rule length_filter_le)
    with Cons.prems False show ?thesis by simp
  qed
qed

lemma pop_from_str_no_dict: "pop_from_str sr keys s \<noteq> Inr (Dict d)"
  by (induction keys) simp_all

lemma pop_from_dict_length: "pop_from_dict sr used keys d0 = Inr (Dict d) \<Longrightarrow> length d0 = used"
  by (cases keys) (simp_all split: if_splits)

text \<open>A dictionary that comes out of the pruning loop is the one that went in.\<close>

lemma pop_from_dict_same: "pop_from_dict sr used keys d0 = Inr (Dict d) \<Longrightarrow> d = d0"
proof (induction keys arbitrary: d0)
  case Nil
  then show ?case by (simp split: if_splits)
next
  case (Cons key keys)
  from pop_from_dict_length [OF Cons.prems] have len: "length d0 = used" .
  show ?case
  proof (cases "key \<in> set sr")
    case True
    with Cons.prems len have "pop_from_dict sr used keys d0 = Inr (Dict d)" by simp
    then show ?thesis by (rule Cons.IH)
  next
    case False
    with Cons.prems len have r: "pop_from_dict sr used keys (dict_pop d0 key) = Inr (Dict d)"
      by simp
    from pop_from_dict_length [OF r] len have "length (dict_pop d0 key) = length d0" by simp
    then have "dict_pop d0 key = d0"
      unfolding dict_pop_def by (rule filter_same_length)
    moreover from r have "d = dict_pop d0 key" by (rule Cons.IH)
    ultimately show ?thesis by simp
  qed
qed

lemma remove_fields_dict: "remove_fields sr d0 = Inr (Dict d) \<Longrightarrow> d = d0"
proof (cases sr)
  case None
  assume "remove_fields sr d0 = Inr (Dict d)"
  with None show ?thesis by (simp add: remove_fields_def)
next
  case (Some r)
  assume h: "remove_fields sr d0 = Inr (Dict d)"
  show ?thesis
  proof (cases "r = []")
    case True
    with h Some show ?thesis by (simp add: remove_fields_def)
  next
    case ne: False
    show ?thesis
    proof (cases "length r = 1")
      case True
      with h Some ne show ?thesis
        by (simp add: remove_fields_def Let_def pop_from_str_no_dict split: sum.splits)
    next
      case False
      with h Some ne have "pop_from_dict r (length d0) (dict_keys d0) d0 = Inr (Dict d)"
        by (simp add: remove_fields_def Let_def)
      then show ?thesis by (rule pop_from_dict_same)
    qed
  qed
qed

lemma schema_record_dict:
  "schema_record cc tk toks sr nk output = Inr (Dict d) \<Longrightarrow> d = gen_text_dict_of cc tk toks nk output"
  unfolding schema_record_def by (rule remove_fields_dict)

lemma schema_record_no_allow_list:
  "sr = None \<or> sr = Some [] \<Longrightarrow>
   schema_record cc tk toks sr nk output = Inr (Dict (gen_text_dict_of cc tk toks nk output))"
  by (auto simp: schema_record_def remove_fields_def)

section \<open>Found fields are slices of the output\<close>

text \<open>
  Claim C1 says that the value of every found field is the decoded slice from its start
  to one before the start of the next pair. The record is keyed by the field key, and
  two delimiters can have the same key once the characters that are not letters or
  digits are removed: \<open>Q:\<close> and \<open>Q-\<close> both give \<open>Q\<close>. The later pair then overwrites
  the earlier one: \<open>Q:\<close> is found at 0 and the next start is 4, its slice decodes to
  \<open>Q:a\<close>, and the record holds \<open>Q-cd\<close> under \<open>Q\<close>.
\<close>

theorem found_field_is_slice_counterexample:
  "schema_token_indices char_tokenizer [str ''Q:'', str ''Q-'']
       (encode char_tokenizer (str ''Q:abQ-cd''))
     = [(str ''Q:'', 0), (str ''Q-'', 4)]
   \<and> decode char_tokenizer True
         (py_slice (encode char_tokenizer (str ''Q:abQ-cd'')) 0 (Some (4 - 1)))
       = str ''Q:a''
   \<and> schema_record latin1_classes char_tokenizer [str ''Q:'', str ''Q-''] None True
         (encode char_tokenizer (str ''Q:abQ-cd''))
       = Inr (Dict [(str ''Q'', str ''Q-cd'')])"
  by code_simp

text \<open>
  Claim C1, amended: in schema mode, for every generated token sequence the (delimiter,
  position) pairs are ordered ascending by position, and every record that is produced
  for the sequence maps the field key of every found delimiter whose key no later pair
  of the sorted list has to the decoded slice \<open>output[start : next_start - 1]\<close>, where
  \<open>next_start\<close> is the position of the next pair; for the last pair it is
  \<open>output[start:]\<close>, the output from \<open>start\<close> to its end. A record is produced whenever
  no allow-list is configured.
\<close>

theorem found_fields_are_slices:
  assumes "idx = schema_token_indices tk toks output"
    and "i < length idx" and "snd (idx ! i) \<noteq> - 1"
    and "\<forall>j. i < j \<and> j < length idx \<longrightarrow>
           field_key cc nk (fst (idx ! j)) \<noteq> field_key cc nk (fst (idx ! i))"
  shows "sorted (map snd idx)
     \<and> (\<forall>sr d. schema_record cc tk toks sr nk output = Inr (Dict d) \<longrightarrow>
           map_of d (field_key cc nk (fst (idx ! i))) =
             Some (decode tk True
                     (py_slice output (snd (idx ! i))
                        (if i + 1 < length idx then Some (snd (idx ! (i + 1)) - 1) else None)))
           \<and> (i + 1 = length idx \<longrightarrow>
                map_of d (field_key cc nk (fst (idx ! i))) =
                  Some (decode tk True (drop (nat (snd (idx ! i))) output))))
     \<and> (\<forall>sr. sr = None \<or> sr = Some [] \<longrightarrow>
           schema_record cc tk toks sr nk output
             = Inr (Dict (gen_text_dict_of cc tk toks nk output)))"
proof -
  let ?g = "gen_text_dict_of cc tk toks nk output"
  let ?key = "field_key cc nk (fst (idx ! i))"
  let ?slice = "decode tk True
                 (py_slice output (snd (idx ! i))
                    (if i + 1 < length idx then Some (snd (idx ! (i + 1)) - 1) else None))"
  have srt: "sorted (map snd idx)"
    using assms(1) by (simp add: schema_token_indices_sorted)
  have val: "map_of ?g ?key = Some ?slice"
    using fill_fields_nth [OF assms(2,4), of tk "output" "[]"] assms(1,3)
    by (simp add: gen_text_dict_of_def)
  have "idx ! i \<in> set (schema_token_indices tk toks output)"
    using assms(1,2) by simp
  then have "- 1 \<le> snd (idx ! i)" by (rule schema_token_indices_ge)
  with assms(3) have pos: "0 \<le> snd (idx ! i)" by simp
  have "py_slice output (snd (idx ! i)) None = drop (nat (snd (idx ! i))) output"
    using pos by (simp add: py_slice_def slice_bound_def min_def Let_def)
  with val have lst: "i + 1 = length idx \<longrightarrow>
            map_of ?g ?key = Some (decode tk True (drop (nat (snd (idx ! i))) output))"
    by simp
  have rec: "map_of d ?key = Some ?slice
           \<and> (i + 1 = length idx \<longrightarrow>
                map_of d ?key = Some (decode tk True (drop (nat (snd (idx ! i))) output)))"
    if "schema_record cc tk toks sr nk output = Inr (Dict d)" for sr d
  proof -
    from that have "d = ?g" by (rule schema_record_dict)
    with val lst show ?thesis by simp
  qed
  show ?thesis
  proof (intro conjI allI impI)
    show "sorted (map snd idx)" by (rule srt)
  next
    fix sr d assume "schema_record cc tk toks sr nk output = Inr (Dict d)"
    from rec [OF this] show "map_of d ?key = Some ?slice" by simp
  next
    fix sr d assume "schema_record cc tk toks sr nk output = Inr (Dict d)"
      and "i + 1 = length idx"
    with rec show "map_of d ?key = Some (decode tk True (drop (nat (snd (idx ! i))) output))"
      by blast
  next
    fix sr :: "pystr list option" assume "sr = None \<or> sr = Some []"
    then show "schema_record cc tk toks sr nk output = Inr (Dict ?g)"
      by (rule schema_record_no_allow_list)
  qed
qed

text \<open>
  The scenario of the specification with a delimiter that is missing: \<open>Q:\<close> is found
  at 0, \<open>A:\<close> at 4 and \<open>Z:\<close> nowhere. The field \<open>Q\<close> is the slice \<open>[0:3]\<close>.
\<close>

theorem found_fields_are_slices_witness:
  "schema_token_indices char_tokenizer [str ''Q:'', str ''A:'', str ''Z:'']
       (encode char_tokenizer (str ''Q:abA:cd''))
     = [(str ''Z:'', - 1), (str ''Q:'', 0), (str ''A:'', 4)]
   \<and> schema_record latin1_classes char_tokenizer [str ''Q:'', str ''A:'', str ''Z:''] None True
         (encode char_tokenizer (str ''Q:abA:cd''))
     = Inr (Dict [(str ''Z'', []), (str ''Q'', str ''Q:a''), (str ''A'', str ''A:cd'')])
   \<and> map_of [(str ''Z'', []), (str ''Q'', str ''Q:a''), (str ''A'', str ''A:cd'')] (str ''Q'')
     = Some (decode char_tokenizer True
               (py_slice (encode char_tokenizer (str ''Q:abA:cd'')) 0 (Some (4 - 1))))
   \<and> decode char_tokenizer True
         (py_slice (encode char_tokenizer (str ''Q:abA:cd'')) 0 (Some (4 - 1)))
     = str ''Q:a''"
proof -
  let ?toks = "[str ''Q:'', str ''A:'', str ''Z:'']"
  let ?out = "encode char_tokenizer (str ''Q:abA:cd'')"
  let ?idx = "[(str ''Z:'', - 1 :: int), (str ''Q:'', 0), (str ''A:'', 4)]"
  let ?d = "[(str ''Z'', []), (str ''Q'', str ''Q:a''), (str ''A'', str ''A:cd'')]"
  have e: "schema_token_indices char_tokenizer ?toks ?out = ?idx" by code_simp
  have kq: "field_key latin1_classes True (str ''Q:'') = str ''Q''" by code_simp
  have ka: "field_key latin1_classes True (str ''A:'') = str ''A''" by code_simp
  have qa: "str ''A'' \<noteq> str ''Q''" by (simp add: str_def)
  have dd: "decode char_tokenizer True (py_slice ?out 0 (Some (4 - 1))) = str ''Q:a''" by code_simp
  have sr: "schema_record latin1_classes char_tokenizer ?toks None True ?out = Inr (Dict ?d)"
    by code_simp
  have later: "\<forall>j. 1 < j \<and> j < length ?idx \<longrightarrow>
           field_key latin1_classes True (fst (?idx ! j))
             \<noteq> field_key latin1_classes True (fst (?idx ! 1))"
  proof (intro allI impI)
    fix j :: nat assume "1 < j \<and> j < length ?idx"
    then have "j = 2" by simp
    then show "field_key latin1_classes True (fst (?idx ! j))
                 \<noteq> field_key latin1_classes True (fst (?idx ! 1))"
      by (simp add: kq ka qa)
  qed
  have i: "1 < length ?idx" and f: "snd (?idx ! 1) \<noteq> - 1" by simp_all
  from found_fields_are_slices [OF e [symmetric] i f later] sr
  have "map_of ?d (field_key latin1_classes True (fst (?idx ! 1))) =
         Some (decode char_tokenizer True
                 (py_slice ?out (snd (?idx ! 1))
                    (if 1 + 1 < length ?idx then Some (snd (?idx ! (1 + 1)) - 1) else None)))"
    by blast
  then have "map_of ?d (str ''Q'')
     = Some (decode char_tokenizer True (py_slice ?out 0 (Some (4 - 1))))"
    by (simp add: kq)
  with e sr dd show ?thesis by simp
qed

section \<open>A delimiter that is not in the output\<close>

text \<open>
  Claim C3 says that the record maps the key of every delimiter that does not occur in
  the output to the empty string. When another delimiter with the same key is found,
  its text is what the record holds: \<open>Q:\<close> is not in the output, \<open>Q-\<close> is, and both
  have the key \<open>Q\<close>.
\<close>

theorem absent_delimiter_counterexample:
  "find_index_of_subset (encode char_tokenizer (str ''Q-cd'')) (encode char_tokenizer (str ''Q:''))
     = - 1
   \<and> \<not> sublist (encode char_tokenizer (str ''Q:'')) (encode char_tokenizer (str ''Q-cd''))
   \<and> schema_record latin1_classes char_tokenizer [str ''Q:'', str ''Q-''] None True
         (encode char_tokenizer (str ''Q-cd''))
       = Inr (Dict [(str ''Q'', str ''Q-cd'')])"
proof -
  have 1: "find_index_of_subset (encode char_tokenizer (str ''Q-cd''))
             (encode char_tokenizer (str ''Q:'')) = - 1"
    by code_simp
  have "encode char_tokenizer (str ''Q:'') \<noteq> []"
    by (simp add: char_tokenizer_def str_def)
  with 1 have 2: "\<not> sublist (encode char_tokenizer (str ''Q:'')) (encode char_tokenizer (str ''Q-cd''))"
    using found_iff_sublist [of "encode char_tokenizer (str ''Q-cd'')" "encode char_tokenizer (str ''Q:'')"]
    by simp
  have 3: "schema_record latin1_classes char_tokenizer [str ''Q:'', str ''Q-''] None True
         (encode char_tokenizer (str ''Q-cd''))
       = Inr (Dict [(str ''Q'', str ''Q-cd'')])"
    by code_simp
  from 1 2 3 show ?thesis by simp
qed

text \<open>
  Claim C3, amended: for every schema delimiter whose encoded token sequence does not
  occur in the output, and whose field key no delimiter that occurs in the output
  shares, every record that is produced for the output maps the key to the empty
  string. When no allow-list is configured a record is produced and no error is raised.
\<close>

theorem absent_delimiter_gives_empty_field:
  assumes "tok \<in> set toks"
    and "\<not> sublist (encode tk tok) output"
    and "\<forall>t\<in>set toks. field_key cc nk t = field_key cc nk tok \<longrightarrow> \<not> sublist (encode tk t) output"
  shows "(\<forall>sr d. schema_record cc tk toks sr nk output = Inr (Dict d) \<longrightarrow>
            map_of d (field_key cc nk tok) = Some [])
     \<and> (\<forall>sr. sr = None \<or> sr = Some [] \<longrightarrow>
           schema_record cc tk toks sr nk output
             = Inr (Dict (gen_text_dict_of cc tk toks nk output)))"
proof (intro conjI allI impI)
  let ?ps = "schema_token_indices tk toks output"
  have absent: "\<forall>p\<in>set ?ps. field_key cc nk (fst p) = field_key cc nk tok \<longrightarrow> snd p = - 1"
  proof (intro ballI impI)
    fix p assume "p \<in> set ?ps" and k: "field_key cc nk (fst p) = field_key cc nk tok"
    then obtain t where t: "t \<in> set toks" "p = (t, find_index_of_subset output (encode tk t))"
      by (auto simp: set_schema_token_indices)
    with k assms(3) have "\<not> sublist (encode tk t) output" by simp
    then show "snd p = - 1" using t(2) by (simp add: not_sublist_not_found)
  qed
  have "(tok, find_index_of_subset output (encode tk tok)) \<in> set ?ps"
    using assms(1) by (simp add: set_schema_token_indices)
  then have ex: "\<exists>p\<in>set ?ps. field_key cc nk (fst p) = field_key cc nk tok"
    by force
  have g: "map_of (gen_text_dict_of cc tk toks nk output) (field_key cc nk tok) = Some []"
    using fill_fields_absent [OF absent, of tk "output" "[]"] ex
    by (simp add: gen_text_dict_of_def)
  fix sr d assume "schema_record cc tk toks sr nk output = Inr (Dict d)"
  then have "d = gen_text_dict_of cc tk toks nk output" by (rule schema_record_dict)
  with g show "map_of d (field_key cc nk tok) = Some []" by simp
next
  fix sr :: "pystr list option" assume "sr = None \<or> sr = Some []"
  then show "schema_record cc tk toks sr nk output
               = Inr (Dict (gen_text_dict_of cc tk toks nk output))"
    by (rule schema_record_no_allow_list)
qed

theorem absent_delimiter_gives_empty_field_witness:
  "str ''Z:'' \<in> set [str ''Q:'', str ''A:'', str ''Z:'']
   \<and> \<not> sublist (encode char_tokenizer (str ''Z:'')) (encode char_tokenizer (str ''Q:abA:cd''))
   \<and> schema_record latin1_classes char_tokenizer [str ''Q:'', str ''A:'', str ''Z:''] None True
         (encode char_tokenizer (str ''Q:abA:cd''))
       = Inr (Dict [(str ''Z'', []), (str ''Q'', str ''Q:a''), (str ''A'', str ''A:cd'')])
   \<and> map_of [(str ''Z'', []), (str ''Q'', str ''Q:a''), (str ''A'', str ''A:cd'')]
         (field_key latin1_classes True (str ''Z:''))
       = Some []"
proof -
  let ?toks = "[str ''Q:'', str ''A:'', str ''Z:'']"
  let ?out = "encode char_tokenizer (str ''Q:abA:cd'')"
  let ?d = "[(str ''Z'', []), (str ''Q'', str ''Q:a''), (str ''A'', str ''A:cd'')]"
  have m: "str ''Z:'' \<in> set ?toks" by simp
  have nf: "find_index_of_subset ?out (encode char_tokenizer (str ''Z:'')) = - 1" by code_simp
  have "encode char_tokenizer (str ''Z:'') \<noteq> []"
    by (simp add: char_tokenizer_def str_def)
  with nf have ns: "\<not> sublist (encode char_tokenizer (str ''Z:'')) ?out"
    using found_iff_sublist [of ?out "encode char_tokenizer (str ''Z:'')"]
    by simp
  have kz: "field_key latin1_classes True (str ''Z:'') = str ''Z''" by code_simp
  have kq: "field_key latin1_classes True (str ''Q:'') = str ''Q''" by code_simp
  have ka: "field_key latin1_classes True (str ''A:'') = str ''A''" by code_simp
  have ne: "str ''Q'' \<noteq> str ''Z''" "str ''A'' \<noteq> str ''Z''" by (simp_all add: str_def)
  have same: "\<forall>t\<in>set ?toks. field_key latin1_classes True t = field_key latin1_classes True (str ''Z:'')
                \<longrightarrow> \<not> sublist (encode char_tokenizer t) ?out"
    using ns by (simp add: kz kq ka ne)
  have sr: "schema_record latin1_classes char_tokenizer ?toks None True ?out = Inr (Dict ?d)"
    by code_simp
  from absent_delimiter_gives_empty_field [OF m ns same] sr
  have "map_of ?d (field_key latin1_classes True (str ''Z:'')) = Some []"
    by blast
  with m ns sr show ?thesis by simp
qed


end
